theory Spec2Isabelle
  imports Main
begin

section \<open>Strings and numbers as the Go runtime renders them\<close>

text \<open>
  A Go string is a sequence of bytes: \<open>len\<close> counts bytes and a slice expression cuts
  at byte offsets. The model uses \<open>string\<close> (a list of \<open>char\<close>, one per byte).
\<close>

definition utod :: "nat \<Rightarrow> char" where
  "utod d = char_of (48 + d)"

text \<open>The decimal digits of a natural number, most significant first.\<close>

fun digits :: "nat \<Rightarrow> string" where
  "digits n = (if n < 10 then [utod n] else digits (n div 10) @ [utod (n mod 10)])"

declare digits.simps [simp del]

text \<open>The verb \<open>%d\<close> of \<open>fmt.Sprintf\<close> on an integer.\<close>

definition sprint_d :: "int \<Rightarrow> string" where
  "sprint_d x = (if x < 0 then CHR ''-'' # digits (nat (- x)) else digits (nat x))"

text \<open>
  \<open>appendInt\<close> of package \<open>time\<close>: a sign for a negative value, then the decimal digits
  padded with zeros on the left to at least \<open>width\<close> digits. A value with more digits
  than \<open>width\<close> is written in full.
\<close>

definition zero_pad :: "nat \<Rightarrow> string \<Rightarrow> string" where
  "zero_pad width ds = replicate (width - length ds) (CHR ''0'') @ ds"

definition appendInt :: "int \<Rightarrow> nat \<Rightarrow> string" where
  "appendInt x width =
     (if x < 0 then CHR ''-'' # zero_pad width (digits (nat (- x)))
      else zero_pad width (digits (nat x)))"

section \<open>Time values\<close>

text \<open>
  What the program observes of a \<open>time.Time\<close>: the Unix seconds (\<open>Unix()\<close>, used for
  the key prefix of a backup run) and the civil fields in the local zone (\<open>Format\<close>).
  The year of a \<open>time.Time\<close> is an \<open>int\<close>; the other fields are normalised by the
  runtime, which \<open>normalised\<close> records.
\<close>

record time =
  unix :: int
  year :: int
  month :: nat
  day :: nat
  hour :: nat
  minute :: nat
  second :: nat

definition normalised :: "time \<Rightarrow> bool" where
  "normalised t \<longleftrightarrow>
     1 \<le> month t \<and> month t \<le> 12 \<and> 1 \<le> day t \<and> day t \<le> 31 \<and>
     hour t \<le> 23 \<and> minute t \<le> 59 \<and> second t \<le> 59"

text \<open>A year that the layout element \<open>2006\<close> writes with exactly four digits.\<close>

definition four_digit_year :: "time \<Rightarrow> bool" where
  "four_digit_year t \<longleftrightarrow> 0 \<le> year t \<and> year t \<le> 9999"

text \<open>\<open>t.Format("20060102_150405")\<close>.\<close>

definition Format_20060102_150405 :: "time \<Rightarrow> string" where
  "Format_20060102_150405 t =
     appendInt (year t) 4 @ appendInt (int (month t)) 2 @ appendInt (int (day t)) 2 @
     ''_'' @
     appendInt (int (hour t)) 2 @ appendInt (int (minute t)) 2 @ appendInt (int (second t)) 2"

section \<open>The artifact namer\<close>

text \<open>
  Encoding, from \<open>backupDatabase\<close>:
  \<open>fmt.Sprintf("%s_backup_%s.sql", dbName, time.Now().Format("20060102_150405"))\<close>.
\<close>

definition backupFilename_of :: "string \<Rightarrow> time \<Rightarrow> string" where
  "backupFilename_of dbName t = dbName @ ''_backup_'' @ Format_20060102_150405 t @ ''.sql''"

text \<open>
  Decoding, from \<open>restoreAllDatabasesFromS3\<close>:
  \<open>backupFilename[:len(backupFilename)-27]\<close>. A slice expression \<open>s[:hi]\<close> panics at run
  time unless \<open>0 \<le> hi \<le> len(s)\<close>.
\<close>

datatype panic = SliceBoundsOutOfRange

definition slice_to :: "string \<Rightarrow> int \<Rightarrow> panic + string" where
  "slice_to s hi =
     (if hi < 0 \<or> int (length s) < hi then Inl SliceBoundsOutOfRange
      else Inr (take (nat hi) s))"

definition decode :: "string \<Rightarrow> panic + string" where
  "decode backupFilename = slice_to backupFilename (int (length backupFilename) - 27)"

section \<open>Paths\<close>

text \<open>
  \<open>filepath.Base\<close>, \<open>filepath.Clean\<close> and \<open>filepath.Join\<close> on a Unix system, where the
  separator is the slash and there are no volume names. \<open>Clean\<close> is given by its
  effect on the path elements: empty elements and \<open>.\<close> are dropped, \<open>..\<close> removes the
  element before it when there is one, is dropped at the root, and is kept at the start
  of a relative path.
\<close>

definition strip_trailing_slashes :: "string \<Rightarrow> string" where
  "strip_trailing_slashes path = rev (dropWhile (\<lambda>c. c = CHR ''/'') (rev path))"

definition last_element :: "string \<Rightarrow> string" where
  "last_element path = rev (takeWhile (\<lambda>c. c \<noteq> CHR ''/'') (rev path))"

definition Base :: "string \<Rightarrow> string" where
  "Base path =
     (if path = [] then ''.''
      else let el = last_element (strip_trailing_slashes path)
           in if el = [] then ''/'' else el)"

fun split_slash :: "string \<Rightarrow> string list" where
  "split_slash [] = [[]]"
| "split_slash (c # cs) =
     (if c = CHR ''/'' then [] # split_slash cs
      else (case split_slash cs of
              [] \<Rightarrow> [[c]]
            | el # els \<Rightarrow> (c # el) # els))"

fun join_slash :: "string list \<Rightarrow> string" where
  "join_slash [] = []"
| "join_slash [x] = x"
| "join_slash (x # y # ys) = x @ CHR ''/'' # join_slash (y # ys)"

text \<open>One step of \<open>Clean\<close>; \<open>out\<close> holds the elements kept so far, the latest first.\<close>

definition clean_element :: "bool \<Rightarrow> string list \<Rightarrow> string \<Rightarrow> string list" where
  "clean_element rooted out el =
     (if el = [] \<or> el = ''.'' then out
      else if el = ''..'' then
        (if out \<noteq> [] \<and> hd out \<noteq> ''..'' then tl out
         else if \<not> rooted then ''..'' # out
         else out)
      else el # out)"

definition Clean :: "string \<Rightarrow> string" where
  "Clean path =
     (if path = [] then ''.''
      else let rooted = (hd path = CHR ''/'');
               out = foldl (clean_element rooted) [] (split_slash path);
               cleaned = (if rooted then ''/'' else []) @ join_slash (rev out)
           in if cleaned = [] then ''.'' else cleaned)"

text \<open>\<open>filepath.Join(a, b)\<close>: empty elements are ignored, the rest is cleaned.\<close>

definition Join :: "string \<Rightarrow> string \<Rightarrow> string" where
  "Join a b =
     (if a \<noteq> [] then Clean (a @ CHR ''/'' # b)
      else if b \<noteq> [] then Clean b
      else [])"

text \<open>A path element that \<open>Clean\<close> keeps as it is.\<close>

definition real_element :: "string \<Rightarrow> bool" where
  "real_element f \<longleftrightarrow> f \<noteq> [] \<and> f \<noteq> ''.'' \<and> f \<noteq> ''..'' \<and> CHR ''/'' \<notin> set f"

section \<open>The collaborators and the state of the world\<close>

datatype error =
    ConnectFailed | QueryFailed | ScanFailed
  | DumpFailed | AwsConfigFailed | OpenFailed | PutFailed
  | ListFailed | CreateFailed | DownloadFailed | RestoreFailed

text \<open>
  The catalog connection as \<open>database/sql\<close> presents it: whether \<open>sql.Open\<close> and
  \<open>db.Query\<close> succeed, the rows that \<open>rows.Next()\<close> delivers, each with the outcome of
  \<open>rows.Scan\<close> on it, and whether the iteration ended because of an error
  (\<open>rows.Err() \<noteq> nil\<close>) rather than at the end of the data.
\<close>

datatype scan = ScanOk string | ScanErr

record catalog =
  open_ok :: bool
  query_ok :: bool
  rows :: "scan list"
  rows_err :: bool

text \<open>
  The exit of the dump tool: success (the archive is written at the output path), or
  failure, with whether a partial file was left at the output path.
\<close>

datatype dump_exit = DumpOk | DumpErr bool

text \<open>
  Everything outside the program that a run depends on. The times are those that
  \<open>time.Now()\<close> returns in \<open>main\<close> and in \<open>backupDatabase\<close> for a given database (the
  catalog lists each database name once).
\<close>

record env =
  tmpdir_var :: string
  s3_dir_var :: string
  start_clock :: time
  dump_clock :: "string \<Rightarrow> time"
  server :: "string \<Rightarrow> catalog"
  run_pg_dump :: "string list \<Rightarrow> dump_exit"
  run_pg_restore :: "string list \<Rightarrow> bool"
  aws_config_ok :: "string \<Rightarrow> bool"
  put_ok :: "string \<Rightarrow> string \<Rightarrow> bool"
  list_ok :: "string \<Rightarrow> string \<Rightarrow> bool"
  page_limit :: nat
  create_ok :: "string \<Rightarrow> bool"
  get_ok :: "string \<Rightarrow> string \<Rightarrow> bool"

text \<open>What the program prints, logs and asks of its collaborators, in order.\<close>

datatype event =
    Stdout_BackingUp string
  | Log_FailedBackup string error
  | Log_FailedUpload string error
  | Stdout_BackupSuccessful string string string
  | Stdout_Processing string
  | Log_FailedDownload string error
  | Stdout_Downloaded string string string
  | Log_FailedRestore string error
  | Stdout_Restored string string
  | Log_Fatal error
  | Exec "string list"
  | PutObject string string string
  | ListObjects string string
  | GetObject string string
  | Remove string

text \<open>
  The state a run changes: the local files that exist, the keys of each bucket in
  listing order, the process environment variable \<open>PGPASSWORD\<close>, and the trace.
\<close>

record world =
  files :: "string set"
  store :: "string \<Rightarrow> string list"
  pgpassword :: "string option"
  trace :: "event list"

definition emit :: "event \<Rightarrow> world \<Rightarrow> world" where
  "emit ev w = w\<lparr>trace := trace w @ [ev]\<rparr>"

definition TempDir :: "env \<Rightarrow> string" where
  "TempDir e = (if tmpdir_var e = [] then ''/tmp'' else tmpdir_var e)"

text \<open>\<open>os.Remove\<close>; the program ignores its error.\<close>

definition os_Remove :: "string \<Rightarrow> world \<Rightarrow> world" where
  "os_Remove path w = emit (Remove path) (w\<lparr>files := files w - {path}\<rparr>)"

text \<open>The deferred calls of a function run when it returns or panics, the latest first.\<close>

fun run_deferred :: "string list \<Rightarrow> world \<Rightarrow> world" where
  "run_deferred [] w = w"
| "run_deferred (path # earlier) w = run_deferred earlier (os_Remove path w)"

section \<open>The object store\<close>

definition has_prefix :: "string \<Rightarrow> string \<Rightarrow> bool" where
  "has_prefix p key \<longleftrightarrow> take (length p) key = p"

record list_output =
  contents :: "string list"
  is_truncated :: bool

text \<open>
  One \<open>ListObjectsV2\<close> request: at most \<open>page_limit\<close> of the keys with the prefix, and
  whether more remain.
\<close>

definition s3_ListObjectsV2 :: "env \<Rightarrow> world \<Rightarrow> string \<Rightarrow> string \<Rightarrow> error + list_output" where
  "s3_ListObjectsV2 e w bucket p =
     (if \<not> list_ok e bucket p then Inl ListFailed
      else let matching = filter (has_prefix p) (store w bucket)
           in Inr \<lparr>contents = take (page_limit e) matching,
                   is_truncated = (page_limit e < length matching)\<rparr>)"

definition put_key :: "string \<Rightarrow> string list \<Rightarrow> string list" where
  "put_key key keys = (if key \<in> set keys then keys else keys @ [key])"

section \<open>The backup program: its operations\<close>

text \<open>
  The backup program is \<open>main.go\<close> of the directory \<open>backup\<close>.

  \<open>getDatabaseList\<close> (lines 20 to 46). \<open>scan_rows\<close> is its loop \<open>for rows.Next()\<close>:
  it ends at the first row that \<open>rows.Scan\<close> rejects, and otherwise when \<open>rows.Next()\<close>
  returns false. The function then returns the names read, without a call of
  \<open>rows.Err()\<close>: nothing in it reads \<open>rows_err\<close>.
\<close>

fun scan_rows :: "scan list \<Rightarrow> string list \<Rightarrow> error + string list" where
  "scan_rows [] databases = Inr databases"
| "scan_rows (ScanErr # later) databases = Inl ScanFailed"
| "scan_rows (ScanOk dbName # later) databases = scan_rows later (databases @ [dbName])"

definition getDatabaseList :: "env \<Rightarrow> string \<Rightarrow> int \<Rightarrow> string \<Rightarrow> string \<Rightarrow> error + string list" where
  "getDatabaseList e dbHost dbPort dbUser dbPassword =
     (let connStr = ''host='' @ dbHost @ '' port='' @ sprint_d dbPort @ '' user='' @ dbUser @
                    '' password='' @ dbPassword @ '' dbname=postgres sslmode=disable'';
          db = server e connStr
      in if \<not> open_ok db then Inl ConnectFailed
         else if \<not> query_ok db then Inl QueryFailed
         else scan_rows (rows db) [])"

text \<open>
  \<open>backupDatabase\<close> (lines 48 to 66): it sets \<open>PGPASSWORD\<close>, names the file after the
  database and the time, and runs \<open>pg_dump\<close> with the file as its output. The path and
  the command line are given names of their own, for use in the statements below.
\<close>

definition backupFilePath_of :: "env \<Rightarrow> string \<Rightarrow> string" where
  "backupFilePath_of e dbName =
     Join (TempDir e) (backupFilename_of dbName (dump_clock e dbName))"

definition pg_dump_argv :: "string \<Rightarrow> int \<Rightarrow> string \<Rightarrow> string \<Rightarrow> string \<Rightarrow> string list" where
  "pg_dump_argv dbHost dbPort dbUser backupFilePath dbName =
     [''pg_dump'', ''-h'', dbHost, ''-p'', sprint_d dbPort, ''-U'', dbUser,
      ''-F'', ''c'', ''-f'', backupFilePath, dbName]"

definition backupDatabase ::
  "env \<Rightarrow> string \<Rightarrow> string \<Rightarrow> string \<Rightarrow> string \<Rightarrow> int \<Rightarrow> world \<Rightarrow> (error + string) \<times> world" where
  "backupDatabase e dbName dbUser dbPassword dbHost dbPort w =
     (let w1 = w\<lparr>pgpassword := Some dbPassword\<rparr>;
          backupFilePath = backupFilePath_of e dbName;
          argv = pg_dump_argv dbHost dbPort dbUser backupFilePath dbName;
          w2 = emit (Exec argv) w1
      in case run_pg_dump e argv of
           DumpOk \<Rightarrow> (Inr backupFilePath, w2\<lparr>files := insert backupFilePath (files w2)\<rparr>)
         | DumpErr partial \<Rightarrow>
             (Inl DumpFailed,
              if partial then w2\<lparr>files := insert backupFilePath (files w2)\<rparr> else w2))"

text \<open>
  \<open>uploadToS3\<close> (lines 68 to 104): it loads the configuration, opens the file, and puts
  it under the key \<open>fmt.Sprintf("%s/%s", s3KeyPrefix, filepath.Base(backupFilePath))\<close>.
\<close>

definition uploadToS3 ::
  "env \<Rightarrow> string \<Rightarrow> string \<Rightarrow> string \<Rightarrow> string \<Rightarrow> world \<Rightarrow> error option \<times> world" where
  "uploadToS3 e backupFilePath s3Bucket s3KeyPrefix region w =
     (if \<not> aws_config_ok e region then (Some AwsConfigFailed, w)
      else if backupFilePath \<notin> files w then (Some OpenFailed, w)
      else let backupFilename = Base backupFilePath;
               s3Key = s3KeyPrefix @ CHR ''/'' # backupFilename;
               w1 = emit (PutObject s3Bucket s3Key backupFilePath) w
           in if \<not> put_ok e s3Bucket s3Key then (Some PutFailed, w1)
              else (None,
                    emit (Stdout_BackupSuccessful backupFilename s3Bucket s3Key)
                      (w1\<lparr>store := (store w1)(s3Bucket := put_key s3Key (store w1 s3Bucket))\<rparr>)))"

section \<open>The restore program: its operations\<close>

text \<open>
  The restore program is \<open>main.go\<close> of the directory \<open>restore\<close>.

  \<open>listS3BackupFiles\<close> (lines 17 to 42): one \<open>ListObjectsV2\<close> request, of which it
  returns the keys; it does not read \<open>IsTruncated\<close> and asks for no further page.
\<close>

definition listS3BackupFiles ::
  "env \<Rightarrow> string \<Rightarrow> string \<Rightarrow> string \<Rightarrow> world \<Rightarrow> (error + string list) \<times> world" where
  "listS3BackupFiles e s3Bucket s3KeyPrefix region w =
     (if \<not> aws_config_ok e region then (Inl AwsConfigFailed, w)
      else let w1 = emit (ListObjects s3Bucket s3KeyPrefix) w
           in case s3_ListObjectsV2 e w s3Bucket s3KeyPrefix of
                Inl err \<Rightarrow> (Inl err, w1)
              | Inr output \<Rightarrow> (Inr (contents output), w1))"

text \<open>
  \<open>downloadFromS3\<close> (lines 44 to 72): it loads the configuration, creates the
  destination file, and downloads the object into it. The file stays when the download
  fails.
\<close>

definition downloadFromS3 ::
  "env \<Rightarrow> string \<Rightarrow> string \<Rightarrow> string \<Rightarrow> string \<Rightarrow> world \<Rightarrow> error option \<times> world" where
  "downloadFromS3 e s3Bucket s3Key destinationPath region w =
     (if \<not> aws_config_ok e region then (Some AwsConfigFailed, w)
      else if \<not> create_ok e destinationPath then (Some CreateFailed, w)
      else let w1 = emit (GetObject s3Bucket s3Key) (w\<lparr>files := insert destinationPath (files w)\<rparr>)
           in if s3Key \<in> set (store w s3Bucket) \<and> get_ok e s3Bucket s3Key
              then (None, emit (Stdout_Downloaded s3Bucket s3Key destinationPath) w1)
              else (Some DownloadFailed, w1))"

text \<open>\<open>restoreDatabase\<close> (lines 74 to 89): it sets \<open>PGPASSWORD\<close> and runs \<open>pg_restore\<close>.\<close>

definition pg_restore_argv :: "string \<Rightarrow> int \<Rightarrow> string \<Rightarrow> string \<Rightarrow> string \<Rightarrow> string list" where
  "pg_restore_argv dbHost dbPort dbUser dbName backupFilePath =
     [''pg_restore'', ''-h'', dbHost, ''-p'', sprint_d dbPort, ''-U'', dbUser,
      ''-d'', dbName, ''-c'', ''-F'', ''c'', backupFilePath]"

definition restoreDatabase ::
  "env \<Rightarrow> string \<Rightarrow> string \<Rightarrow> string \<Rightarrow> string \<Rightarrow> int \<Rightarrow> string \<Rightarrow> world \<Rightarrow> error option \<times> world" where
  "restoreDatabase e dbName dbUser dbPassword dbHost dbPort backupFilePath w =
     (let w1 = w\<lparr>pgpassword := Some dbPassword\<rparr>;
          argv = pg_restore_argv dbHost dbPort dbUser dbName backupFilePath;
          w2 = emit (Exec argv) w1
      in if run_pg_restore e argv then (None, emit (Stdout_Restored dbName backupFilePath) w2)
         else (Some RestoreFailed, w2))"

section \<open>The orchestrating functions\<close>

text \<open>The seven parameters that \<open>main\<close> hands to the orchestrating function.\<close>

record config =
  dbHost :: string
  dbPort :: int
  dbUser :: string
  dbPassword :: string
  s3Bucket :: string
  s3KeyPrefix :: string
  region :: string

text \<open>
  \<open>backupAllDatabasesToS3\<close> (backup program, lines 106 to 133). \<open>backup_iteration\<close> is
  one iteration of its loop; \<open>deferred\<close> is the stack of paths for which
  \<open>defer os.Remove\<close> has been executed, the latest first. A failed dump leaves the
  iteration by \<open>continue\<close> before the \<open>defer\<close> statement; a failed upload leaves it
  after. The deferred removals run when the function returns.
\<close>

definition backup_iteration :: "env \<Rightarrow> config \<Rightarrow> string \<Rightarrow> world \<times> string list \<Rightarrow> world \<times> string list" where
  "backup_iteration e cfg dbName s =
     (case s of (w, deferred) \<Rightarrow>
        (case backupDatabase e dbName (dbUser cfg) (dbPassword cfg) (dbHost cfg) (dbPort cfg)
                (emit (Stdout_BackingUp dbName) w) of
           (Inl err, w1) \<Rightarrow> (emit (Log_FailedBackup dbName err) w1, deferred)
         | (Inr backupFilePath, w1) \<Rightarrow>
             (case uploadToS3 e backupFilePath (s3Bucket cfg) (s3KeyPrefix cfg) (region cfg) w1 of
                (Some err, w2) \<Rightarrow> (emit (Log_FailedUpload dbName err) w2, backupFilePath # deferred)
              | (None, w2) \<Rightarrow> (w2, backupFilePath # deferred))))"

fun backup_loop :: "env \<Rightarrow> config \<Rightarrow> string list \<Rightarrow> world \<times> string list \<Rightarrow> world \<times> string list" where
  "backup_loop e cfg [] s = s"
| "backup_loop e cfg (dbName # later) s = backup_loop e cfg later (backup_iteration e cfg dbName s)"

definition backupAllDatabasesToS3 :: "env \<Rightarrow> config \<Rightarrow> world \<Rightarrow> error option \<times> world" where
  "backupAllDatabasesToS3 e cfg w =
     (case getDatabaseList e (dbHost cfg) (dbPort cfg) (dbUser cfg) (dbPassword cfg) of
        Inl err \<Rightarrow> (Some err, w)
      | Inr databases \<Rightarrow>
          (case backup_loop e cfg databases (w, []) of
             (w1, deferred) \<Rightarrow> (None, run_deferred deferred w1)))"

definition backup_config :: "env \<Rightarrow> config" where
  "backup_config e =
     \<lparr>dbHost = ''localhost'', dbPort = 5432, dbUser = ''postgres'', dbPassword = ''postgres'',
      s3Bucket = ''kmf-db'', s3KeyPrefix = sprint_d (unix (start_clock e)),
      region = ''ap-south-1''\<rparr>"

text \<open>
  \<open>main\<close> of the backup program (lines 135 to 149), with the exit status of the
  process: 1 after \<open>log.Fatalf\<close>, 0 otherwise.
\<close>

definition backup_main :: "env \<Rightarrow> world \<Rightarrow> nat \<times> world" where
  "backup_main e w =
     (case backupAllDatabasesToS3 e (backup_config e) w of
        (Some err, w1) \<Rightarrow> (1, emit (Log_Fatal err) w1)
      | (None, w1) \<Rightarrow> (0, w1))"

text \<open>
  \<open>restoreAllDatabasesFromS3\<close> (restore program, lines 91 to 120).
  \<open>restore_iteration\<close> is one iteration of its loop: a failed download leaves it by
  \<open>continue\<close> before the \<open>defer\<close> statement; a panic of the slice expression leaves the
  loop and the function, with the removal of the downloaded file already deferred. The
  deferred removals run when the function returns and when it panics.
\<close>

definition restore_iteration ::
  "env \<Rightarrow> config \<Rightarrow> string \<Rightarrow> world \<times> string list \<Rightarrow> panic option \<times> world \<times> string list" where
  "restore_iteration e cfg s3Key s =
     (case s of (w, deferred) \<Rightarrow>
        (let backupFilename = Base s3Key;
             backupFilePath = Join (TempDir e) backupFilename
         in case downloadFromS3 e (s3Bucket cfg) s3Key backupFilePath (region cfg)
                   (emit (Stdout_Processing s3Key) w) of
              (Some err, w1) \<Rightarrow> (None, emit (Log_FailedDownload s3Key err) w1, deferred)
            | (None, w1) \<Rightarrow>
                (case decode backupFilename of
                   Inl p \<Rightarrow> (Some p, w1, backupFilePath # deferred)
                 | Inr dbName \<Rightarrow>
                     (case restoreDatabase e dbName (dbUser cfg) (dbPassword cfg) (dbHost cfg)
                             (dbPort cfg) backupFilePath w1 of
                        (Some err, w2) \<Rightarrow>
                          (None, emit (Log_FailedRestore dbName err) w2, backupFilePath # deferred)
                      | (None, w2) \<Rightarrow> (None, w2, backupFilePath # deferred)))))"

fun restore_loop ::
  "env \<Rightarrow> config \<Rightarrow> string list \<Rightarrow> world \<times> string list \<Rightarrow> panic option \<times> world \<times> string list" where
  "restore_loop e cfg [] s = (None, s)"
| "restore_loop e cfg (s3Key # later) s =
     (case restore_iteration e cfg s3Key s of
        (Some p, s1) \<Rightarrow> (Some p, s1)
      | (None, s1) \<Rightarrow> restore_loop e cfg later s1)"

text \<open>How a call ends: it returns its error value, or it panics.\<close>

datatype outcome = Returned "error option" | Panicked panic

definition restoreAllDatabasesFromS3 :: "env \<Rightarrow> config \<Rightarrow> world \<Rightarrow> outcome \<times> world" where
  "restoreAllDatabasesFromS3 e cfg w =
     (case listS3BackupFiles e (s3Bucket cfg) (s3KeyPrefix cfg) (region cfg) w of
        (Inl err, w1) \<Rightarrow> (Returned (Some err), w1)
      | (Inr backupFiles, w1) \<Rightarrow>
          (case restore_loop e cfg backupFiles (w1, []) of
             (None, w2, deferred) \<Rightarrow> (Returned None, run_deferred deferred w2)
           | (Some p, w2, deferred) \<Rightarrow> (Panicked p, run_deferred deferred w2)))"

definition restore_config :: "env \<Rightarrow> config" where
  "restore_config e =
     \<lparr>dbHost = ''localhost'', dbPort = 5432, dbUser = ''postgres'', dbPassword = ''postgres'',
      s3Bucket = ''kmf-db'', s3KeyPrefix = s3_dir_var e, region = ''ap-south-1''\<rparr>"

text \<open>
  \<open>main\<close> of the restore program (lines 122 to 136), with the exit status of the
  process: 1 after \<open>log.Fatalf\<close>, 2 after a panic that nothing recovers, 0 otherwise. The
  prefix is \<open>os.Getenv("S3_DIR")\<close>, the empty string when the variable is unset.
\<close>

definition restore_main :: "env \<Rightarrow> world \<Rightarrow> nat \<times> world" where
  "restore_main e w =
     (case restoreAllDatabasesFromS3 e (restore_config e) w of
        (Returned (Some err), w1) \<Rightarrow> (1, emit (Log_Fatal err) w1)
      | (Returned None, w1) \<Rightarrow> (0, w1)
      | (Panicked p, w1) \<Rightarrow> (2, w1))"

section \<open>What a run does to one item\<close>

text \<open>
  The outcome of each step for one database of a backup run, read off the collaborators:
  the exit of the dump tool on the command line that \<open>backupDatabase\<close> builds, the key
  under which \<open>uploadToS3\<close> stores the artifact, and whether the upload succeeds once
  the dump has written the file.
\<close>

definition dump_exit_of :: "env \<Rightarrow> config \<Rightarrow> string \<Rightarrow> dump_exit" where
  "dump_exit_of e cfg dbName =
     run_pg_dump e
       (pg_dump_argv (dbHost cfg) (dbPort cfg) (dbUser cfg) (backupFilePath_of e dbName) dbName)"

definition dump_succeeds :: "env \<Rightarrow> config \<Rightarrow> string \<Rightarrow> bool" where
  "dump_succeeds e cfg dbName \<longleftrightarrow> dump_exit_of e cfg dbName = DumpOk"

definition s3Key_of :: "env \<Rightarrow> config \<Rightarrow> string \<Rightarrow> string" where
  "s3Key_of e cfg dbName = s3KeyPrefix cfg @ CHR ''/'' # Base (backupFilePath_of e dbName)"

definition upload_succeeds :: "env \<Rightarrow> config \<Rightarrow> string \<Rightarrow> bool" where
  "upload_succeeds e cfg dbName \<longleftrightarrow>
     aws_config_ok e (region cfg) \<and> put_ok e (s3Bucket cfg) (s3Key_of e cfg dbName)"

text \<open>
  The same for one key of a restore run: the local path of the download, whether the
  download succeeds, the database name cut from the basename, and whether the restore
  tool succeeds on the command line that \<open>restoreDatabase\<close> builds.
\<close>

definition local_path_of :: "env \<Rightarrow> string \<Rightarrow> string" where
  "local_path_of e s3Key = Join (TempDir e) (Base s3Key)"

definition download_succeeds :: "env \<Rightarrow> config \<Rightarrow> world \<Rightarrow> string \<Rightarrow> bool" where
  "download_succeeds e cfg w s3Key \<longleftrightarrow>
     aws_config_ok e (region cfg) \<and> create_ok e (local_path_of e s3Key) \<and>
     s3Key \<in> set (store w (s3Bucket cfg)) \<and> get_ok e (s3Bucket cfg) s3Key"

definition dbName_of :: "string \<Rightarrow> string" where
  "dbName_of s3Key = take (length (Base s3Key) - 27) (Base s3Key)"

definition restore_argv_of :: "env \<Rightarrow> config \<Rightarrow> string \<Rightarrow> string list" where
  "restore_argv_of e cfg s3Key =
     pg_restore_argv (dbHost cfg) (dbPort cfg) (dbUser cfg) (dbName_of s3Key) (local_path_of e s3Key)"

definition restore_succeeds :: "env \<Rightarrow> config \<Rightarrow> string \<Rightarrow> bool" where
  "restore_succeeds e cfg s3Key \<longleftrightarrow> run_pg_restore e (restore_argv_of e cfg s3Key)"

text \<open>A key whose downloaded file has a basename too short for the slice expression.\<close>

definition short_name :: "env \<Rightarrow> config \<Rightarrow> world \<Rightarrow> string \<Rightarrow> bool" where
  "short_name e cfg w s3Key \<longleftrightarrow> download_succeeds e cfg w s3Key \<and> length (Base s3Key) < 27"

text \<open>The keys that the restore loop reaches: all of them up to the first that panics.\<close>

fun reached :: "(string \<Rightarrow> bool) \<Rightarrow> string list \<Rightarrow> string list" where
  "reached stops [] = []"
| "reached stops (k # ks) = k # (if stops k then [] else reached stops ks)"

section \<open>Reading the trace\<close>

text \<open>
  The paths removed, the databases announced by the backup loop and the keys announced by
  the restore loop, in the order in which the events occur.
\<close>

fun removed :: "event \<Rightarrow> string list" where
  "removed (Remove path) = [path]"
| "removed ev = []"

fun announced :: "event \<Rightarrow> string list" where
  "announced (Stdout_BackingUp dbName) = [dbName]"
| "announced ev = []"

definition removals :: "event list \<Rightarrow> string list" where
  "removals evs = concat (map removed evs)"

definition announcements :: "event list \<Rightarrow> string list" where
  "announcements evs = concat (map announced evs)"

fun processed :: "event \<Rightarrow> string list" where
  "processed (Stdout_Processing s3Key) = [s3Key]"
| "processed ev = []"

definition processings :: "event list \<Rightarrow> string list" where
  "processings evs = concat (map processed evs)"

section \<open>Scenarios\<close>

text \<open>The timestamp of the scenarios of the specification: 14 November 2023, 12:00:00.\<close>

definition noon_2023_11_14 :: time where
  "noon_2023_11_14 =
     \<lparr>unix = 1699963200, year = 2023, month = 11, day = 14, hour = 12, minute = 0, second = 0\<rparr>"

text \<open>The start of the run, whose Unix seconds are the prefix of the scenarios.\<close>

definition run_start :: time where
  "run_start =
     \<lparr>unix = 1700000000, year = 2023, month = 11, day = 14, hour = 22, minute = 13, second = 20\<rparr>"

definition three_databases :: catalog where
  "three_databases =
     \<lparr>open_ok = True, query_ok = True,
      rows = [ScanOk ''admindb'', ScanOk ''agentdb'', ScanOk ''userdb''], rows_err = False\<rparr>"

text \<open>
  A server with three databases. On the backup side the dump of \<open>agentdb\<close> fails and
  leaves a partial file, and the upload of the \<open>userdb\<close> artifact fails; on the restore
  side the download of the \<open>userdb\<close> artifact and the restore of \<open>agentdb\<close> fail.
  Everything else succeeds.
\<close>

definition scenario_env :: env where
  "scenario_env =
     \<lparr>tmpdir_var = [], s3_dir_var = ''1700000000'', start_clock = run_start,
      dump_clock = (\<lambda>dbName. noon_2023_11_14), server = (\<lambda>connStr. three_databases),
      run_pg_dump = (\<lambda>argv. if last argv = ''agentdb'' then DumpErr True else DumpOk),
      run_pg_restore = (\<lambda>argv. argv ! 8 \<noteq> ''agentdb''), aws_config_ok = (\<lambda>region. True),
      put_ok = (\<lambda>bucket key. key \<noteq> ''1700000000/userdb_backup_20231114_120000.sql''),
      list_ok = (\<lambda>bucket p. True), page_limit = 1000,
      create_ok = (\<lambda>path. True),
      get_ok = (\<lambda>bucket key. key \<noteq> ''1700000000/userdb_backup_20231114_120000.sql'')\<rparr>"

definition empty_world :: world where
  "empty_world = \<lparr>files = {}, store = (\<lambda>bucket. []), pgpassword = None, trace = []\<rparr>"

text \<open>The connection breaks after the first row: \<open>rows.Next()\<close> returns false with an error.\<close>

definition interrupted_env :: env where
  "interrupted_env =
     scenario_env\<lparr>server := (\<lambda>connStr.
       \<lparr>open_ok = True, query_ok = True, rows = [ScanOk ''admindb''], rows_err = True\<rparr>)\<rparr>"

text \<open>A database whose name contains a slash, dumped successfully.\<close>

definition slash_env :: env where
  "slash_env =
     scenario_env\<lparr>server := (\<lambda>connStr.
       \<lparr>open_ok = True, query_ok = True, rows = [ScanOk ''a/b''], rows_err = False\<rparr>)\<rparr>"

text \<open>A bucket that holds the three artifacts of the specification's scenario.\<close>

definition bucket_world :: world where
  "bucket_world =
     empty_world\<lparr>store := (\<lambda>bucket. if bucket = ''kmf-db''
        then [''1700000000/admindb_backup_20231114_120000.sql'',
              ''1700000000/agentdb_backup_20231114_120000.sql'',
              ''1700000000/userdb_backup_20231114_120000.sql'']
        else [])\<rparr>"

text \<open>A bucket that holds one object that no backup run wrote, and no prefix given.\<close>

definition notes_world :: world where
  "notes_world =
     empty_world\<lparr>store := (\<lambda>bucket. if bucket = ''kmf-db'' then [''notes.txt''] else [])\<rparr>"

text \<open>The same collaborators with a listing page of two keys.\<close>

definition two_per_page_env :: env where
  "two_per_page_env = scenario_env\<lparr>page_limit := 2\<rparr>"

text \<open>The same collaborators with \<open>S3_DIR\<close> unset.\<close>

definition unset_prefix_env :: env where
  "unset_prefix_env = scenario_env\<lparr>s3_dir_var := []\<rparr>"

section \<open>Lengths of the rendered fields\<close>

lemma utod_values:
  "utod 0 = CHR ''0''" "utod (Suc 0) = CHR ''1''" "utod 1 = CHR ''1''" "utod 2 = CHR ''2''"
  "utod 3 = CHR ''3''" "utod 4 = CHR ''4''" "utod 5 = CHR ''5''" "utod 6 = CHR ''6''"
  "utod 7 = CHR ''7''" "utod 8 = CHR ''8''" "utod 9 = CHR ''9''"
  by code_simp+

lemmas render_defs =
  backupFilename_of_def Format_20060102_150405_def appendInt_def zero_pad_def sprint_d_def
  digits.simps utod_values

lemma length_digits_lt_10: "n < 10 \<Longrightarrow> length (digits n) = 1"
  by (subst digits.simps) simp

lemma length_digits_lt_100: "n < 100 \<Longrightarrow> length (digits n) \<le> 2"
  by (subst digits.simps) (simp add: length_digits_lt_10)

lemma length_digits_lt_1000: "n < 1000 \<Longrightarrow> length (digits n) \<le> 3"
proof (subst digits.simps, cases "n < 10")
  case False
  assume "n < 1000"
  then have "n div 10 < 100" by simp
  then have "length (digits (n div 10)) \<le> 2" by (rule length_digits_lt_100)
  with False show "length (if n < 10 then [utod n] else digits (n div 10) @ [utod (n mod 10)]) \<le> 3"
    by simp
qed simp

lemma length_digits_lt_10000: "n < 10000 \<Longrightarrow> length (digits n) \<le> 4"
proof (subst digits.simps, cases "n < 10")
  case False
  assume "n < 10000"
  then have "n div 10 < 1000" by simp
  then have "length (digits (n div 10)) \<le> 3" by (rule length_digits_lt_1000)
  with False show "length (if n < 10 then [utod n] else digits (n div 10) @ [utod (n mod 10)]) \<le> 4"
    by simp
qed simp

lemma length_zero_pad: "length ds \<le> width \<Longrightarrow> length (zero_pad width ds) = width"
  by (simp add: zero_pad_def)

lemma length_appendInt_2: "n < 100 \<Longrightarrow> length (appendInt (int n) 2) = 2"
  by (simp add: appendInt_def length_zero_pad length_digits_lt_100)

lemma length_appendInt_4: "0 \<le> y \<Longrightarrow> y \<le> 9999 \<Longrightarrow> length (appendInt y 4) = 4"
proof -
  assume "0 \<le> y" "y \<le> 9999"
  then have "nat y < 10000" by simp
  then have "length (digits (nat y)) \<le> 4" by (rule length_digits_lt_10000)
  with \<open>0 \<le> y\<close> show ?thesis by (simp add: appendInt_def length_zero_pad)
qed

lemma length_Format:
  assumes "normalised t" and "four_digit_year t"
  shows "length (Format_20060102_150405 t) = 15"
proof -
  from assms(1) have "month t < 100" "day t < 100" "hour t < 100" "minute t < 100" "second t < 100"
    by (simp_all add: normalised_def)
  moreover from assms(2) have "0 \<le> year t" "year t \<le> 9999"
    by (simp_all add: four_digit_year_def)
  ultimately show ?thesis
    by (simp add: Format_20060102_150405_def length_appendInt_2 length_appendInt_4)
qed

lemma length_backupFilename_of:
  assumes "normalised t" and "four_digit_year t"
  shows "length (backupFilename_of n t) = length n + 27"
  using length_Format [OF assms] by (simp add: backupFilename_of_def)

lemma decode_append:
  "length suffix = 27 \<Longrightarrow> decode (n @ suffix) = Inr n"
  by (simp add: decode_def slice_to_def)

section \<open>The basename of a joined path\<close>

lemma split_slash_not_Nil: "split_slash s \<noteq> []"
  by (induction s) (auto split: list.splits)

lemma split_slash_no_slash: "CHR ''/'' \<notin> set f \<Longrightarrow> split_slash f = [f]"
  by (induction f) auto

lemma split_slash_append:
  "split_slash (a @ CHR ''/'' # b) = split_slash a @ split_slash b"
proof (induction a)
  case Nil
  show ?case by simp
next
  case (Cons c cs)
  obtain x xs where "split_slash cs = x # xs"
    using split_slash_not_Nil [of cs] by (cases "split_slash cs") auto
  with Cons show ?case by simp
qed

lemma foldl_clean_element_snoc:
  "real_element f \<Longrightarrow>
   foldl (clean_element rooted) out (els @ [f]) = f # foldl (clean_element rooted) out els"
  by (simp add: clean_element_def real_element_def)

lemma join_slash_snoc:
  "join_slash (xs @ [f]) = (if xs = [] then f else join_slash xs @ CHR ''/'' # f)"
  by (induction xs rule: join_slash.induct) auto

lemma Clean_ends_with_element:
  assumes "real_element f" and "p = f \<or> (\<exists>a. p = a @ CHR ''/'' # f)"
  shows "\<exists>pre. Clean p = pre @ f \<and> (pre = [] \<or> last pre = CHR ''/'')"
proof -
  from assms(1) have f: "f \<noteq> []" "CHR ''/'' \<notin> set f" by (simp_all add: real_element_def)
  from assms(2) f obtain els where els: "split_slash p = els @ [f]"
    by (auto simp: split_slash_append split_slash_no_slash)
  from assms(2) f have p: "p \<noteq> []" by auto
  let ?rooted = "hd p = CHR ''/''"
  let ?out = "foldl (clean_element ?rooted) [] els"
  let ?root = "if ?rooted then ''/'' else []"
  have out: "foldl (clean_element ?rooted) [] (split_slash p) = f # ?out"
    using els foldl_clean_element_snoc [OF assms(1)] by simp
  have "Clean p = ?root @ join_slash (rev ?out @ [f])"
    using p f out by (simp add: Clean_def Let_def join_slash_snoc)
  then have "Clean p = (?root @ (if rev ?out = [] then [] else join_slash (rev ?out) @ ''/'')) @ f"
    by (simp add: join_slash_snoc)
  moreover have "?root @ (if rev ?out = [] then [] else join_slash (rev ?out) @ ''/'') = [] \<or>
                 last (?root @ (if rev ?out = [] then [] else join_slash (rev ?out) @ ''/'')) = CHR ''/''"
    by simp
  ultimately show ?thesis by blast
qed

lemma Base_of_last_element:
  assumes "f \<noteq> []" and "CHR ''/'' \<notin> set f" and "pre = [] \<or> last pre = CHR ''/''"
  shows "Base (pre @ f) = f"
proof -
  from assms(1,2) have l: "last f \<noteq> CHR ''/''" by (metis last_in_set)
  have hd: "hd (rev f) \<noteq> CHR ''/''" using l assms(1) by (simp add: hd_rev)
  have "dropWhile (\<lambda>c. c = CHR ''/'') (rev f @ rev pre) = rev f @ rev pre"
    using hd assms(1) by (cases "rev f") auto
  then have s: "strip_trailing_slashes (pre @ f) = pre @ f"
    by (simp add: strip_trailing_slashes_def)
  have "takeWhile (\<lambda>c. c \<noteq> CHR ''/'') (rev pre) = []"
    using assms(3) by (cases "rev pre") (auto simp: last_rev [symmetric] simp del: last_rev)
  then have "takeWhile (\<lambda>c. c \<noteq> CHR ''/'') (rev f @ rev pre) = rev f"
    using assms(2) by (subst takeWhile_append2) auto
  then have "last_element (pre @ f) = f" by (simp add: last_element_def)
  with s assms(1) show ?thesis by (simp add: Base_def)
qed

lemma Base_Join:
  assumes "real_element f"
  shows "Base (Join d f) = f"
proof -
  from assms have f: "f \<noteq> []" "CHR ''/'' \<notin> set f" by (simp_all add: real_element_def)
  have "Join d f = Clean f \<or> (\<exists>a. Join d f = Clean (a @ CHR ''/'' # f))"
    using f by (auto simp: Join_def)
  then obtain p where p: "Join d f = Clean p" "p = f \<or> (\<exists>a. p = a @ CHR ''/'' # f)" by blast
  from Clean_ends_with_element [OF assms p(2)]
  obtain pre where "Clean p = pre @ f" "pre = [] \<or> last pre = CHR ''/''" by blast
  with p(1) Base_of_last_element [OF f] show ?thesis by simp
qed

lemma utod_not_slash: "d < 10 \<Longrightarrow> utod d \<noteq> CHR ''/''"
proof -
  assume "d < 10"
  then have "d \<in> {0, 1, 2, 3, 4, 5, 6, 7, 8, 9}" by auto
  then show ?thesis by (auto simp: utod_values)
qed

lemma no_slash_digits: "CHR ''/'' \<notin> set (digits n)"
proof (induction n rule: digits.induct)
  case (1 n)
  show ?case
  proof (cases "n < 10")
    case True
    then show ?thesis using utod_not_slash [of n] by (subst digits.simps) auto
  next
    case False
    have "utod (n mod 10) \<noteq> CHR ''/''" by (rule utod_not_slash) simp
    with False "1.IH" show ?thesis by (subst digits.simps) auto
  qed
qed

lemma no_slash_appendInt: "CHR ''/'' \<notin> set (appendInt x width)"
  by (simp add: appendInt_def zero_pad_def no_slash_digits)

lemma no_slash_Format: "CHR ''/'' \<notin> set (Format_20060102_150405 t)"
  by (simp add: Format_20060102_150405_def no_slash_appendInt)

lemma real_element_backupFilename_of:
  assumes "CHR ''/'' \<notin> set dbName"
  shows "real_element (backupFilename_of dbName t)"
proof -
  have "8 \<le> length (backupFilename_of dbName t)" by (simp add: backupFilename_of_def)
  then have "backupFilename_of dbName t \<noteq> []" "backupFilename_of dbName t \<noteq> ''.''"
    "backupFilename_of dbName t \<noteq> ''..''" by auto
  moreover have "CHR ''/'' \<notin> set (backupFilename_of dbName t)"
    using assms by (simp add: backupFilename_of_def no_slash_Format)
  ultimately show ?thesis by (simp add: real_element_def)
qed

lemma Base_backupFilePath_of:
  "CHR ''/'' \<notin> set dbName \<Longrightarrow>
   Base (backupFilePath_of e dbName) = backupFilename_of dbName (dump_clock e dbName)"
  by (simp add: backupFilePath_of_def Base_Join real_element_backupFilename_of)


section \<open>One iteration and the whole loop of the backup run\<close>

lemmas iteration_defs = backup_iteration_def backupDatabase_def uploadToS3_def emit_def Let_def
  dump_exit_of_def dump_succeeds_def upload_succeeds_def s3Key_of_def

lemma files_backup_iteration:
  "files (fst (backup_iteration e cfg db (w, ds))) =
     (if dump_exit_of e cfg db = DumpErr False then files w
      else insert (backupFilePath_of e db) (files w))"
  by (simp add: iteration_defs split: dump_exit.splits)

lemma deferred_backup_iteration:
  "snd (backup_iteration e cfg db (w, ds)) =
     (if dump_succeeds e cfg db then backupFilePath_of e db # ds else ds)"
  by (simp add: iteration_defs split: dump_exit.splits)

lemma store_backup_iteration:
  "store (fst (backup_iteration e cfg db (w, ds))) =
     (if dump_succeeds e cfg db \<and> upload_succeeds e cfg db
      then (store w)(s3Bucket cfg := put_key (s3Key_of e cfg db) (store w (s3Bucket cfg)))
      else store w)"
  by (simp add: iteration_defs split: dump_exit.splits)

lemma trace_backup_iteration:
  "\<exists>evs. trace (fst (backup_iteration e cfg db (w, ds))) = trace w @ evs \<and>
         removals evs = [] \<and> announcements evs = [db] \<and>
         (\<not> dump_succeeds e cfg db \<longrightarrow> Log_FailedBackup db DumpFailed \<in> set evs) \<and>
         (dump_succeeds e cfg db \<and> \<not> upload_succeeds e cfg db \<longrightarrow>
            (\<exists>err. Log_FailedUpload db err \<in> set evs)) \<and>
         (dump_succeeds e cfg db \<and> upload_succeeds e cfg db \<longrightarrow>
            PutObject (s3Bucket cfg) (s3Key_of e cfg db) (backupFilePath_of e db) \<in> set evs)"
  by (simp add: iteration_defs removals_def announcements_def split: dump_exit.splits)


lemma removals_append: "removals (xs @ ys) = removals xs @ removals ys"
  by (simp add: removals_def)

lemma announcements_append: "announcements (xs @ ys) = announcements xs @ announcements ys"
  by (simp add: announcements_def)

lemma files_backup_loop:
  "files (fst (backup_loop e cfg dbs (w, ds))) =
     files w \<union> {backupFilePath_of e db | db. db \<in> set dbs \<and> dump_exit_of e cfg db \<noteq> DumpErr False}"
proof (induction dbs arbitrary: w ds)
  case Nil
  show ?case by simp
next
  case (Cons db later)
  obtain w1 ds1 where it: "backup_iteration e cfg db (w, ds) = (w1, ds1)"
    by (cases "backup_iteration e cfg db (w, ds)")
  have "files w1 = (if dump_exit_of e cfg db = DumpErr False then files w
                    else insert (backupFilePath_of e db) (files w))"
    using files_backup_iteration [of e cfg db w ds] it by simp
  with Cons.IH [of w1 ds1] it show ?case by auto
qed

lemma deferred_backup_loop:
  "snd (backup_loop e cfg dbs (w, ds)) =
     rev (map (backupFilePath_of e) (filter (dump_succeeds e cfg) dbs)) @ ds"
proof (induction dbs arbitrary: w ds)
  case Nil
  show ?case by simp
next
  case (Cons db later)
  obtain w1 ds1 where it: "backup_iteration e cfg db (w, ds) = (w1, ds1)"
    by (cases "backup_iteration e cfg db (w, ds)")
  have "ds1 = (if dump_succeeds e cfg db then backupFilePath_of e db # ds else ds)"
    using deferred_backup_iteration [of e cfg db w ds] it by simp
  with Cons.IH [of w1 ds1] it show ?case by simp
qed

lemma set_put_key: "set (put_key key keys) = insert key (set keys)"
  by (auto simp: put_key_def)

lemma store_backup_loop:
  "set (store (fst (backup_loop e cfg dbs (w, ds))) (s3Bucket cfg)) =
     set (store w (s3Bucket cfg)) \<union>
     {s3Key_of e cfg db | db. db \<in> set dbs \<and> dump_succeeds e cfg db \<and> upload_succeeds e cfg db}"
proof (induction dbs arbitrary: w ds)
  case Nil
  show ?case by simp
next
  case (Cons db later)
  obtain w1 ds1 where it: "backup_iteration e cfg db (w, ds) = (w1, ds1)"
    by (cases "backup_iteration e cfg db (w, ds)")
  have "set (store w1 (s3Bucket cfg)) =
          (if dump_succeeds e cfg db \<and> upload_succeeds e cfg db
           then insert (s3Key_of e cfg db) (set (store w (s3Bucket cfg)))
           else set (store w (s3Bucket cfg)))"
    using store_backup_iteration [of e cfg db w ds] it by (simp add: set_put_key)
  with Cons.IH [of w1 ds1] it show ?case by auto
qed

lemma other_buckets_backup_loop:
  "bucket \<noteq> s3Bucket cfg \<Longrightarrow> store (fst (backup_loop e cfg dbs (w, ds))) bucket = store w bucket"
proof (induction dbs arbitrary: w ds)
  case Nil
  show ?case by simp
next
  case (Cons db later)
  obtain w1 ds1 where it: "backup_iteration e cfg db (w, ds) = (w1, ds1)"
    by (cases "backup_iteration e cfg db (w, ds)")
  have "store w1 bucket = store w bucket"
    using store_backup_iteration [of e cfg db w ds] it Cons.prems by simp
  with Cons.IH [of w1 ds1] Cons.prems it show ?case by simp
qed

lemma trace_backup_loop:
  "\<exists>evs. trace (fst (backup_loop e cfg dbs (w, ds))) = trace w @ evs \<and>
         removals evs = [] \<and> announcements evs = dbs \<and>
         (\<forall>db\<in>set dbs. \<not> dump_succeeds e cfg db \<longrightarrow> Log_FailedBackup db DumpFailed \<in> set evs) \<and>
         (\<forall>db\<in>set dbs. dump_succeeds e cfg db \<and> \<not> upload_succeeds e cfg db \<longrightarrow>
            (\<exists>err. Log_FailedUpload db err \<in> set evs)) \<and>
         (\<forall>db\<in>set dbs. dump_succeeds e cfg db \<and> upload_succeeds e cfg db \<longrightarrow>
            PutObject (s3Bucket cfg) (s3Key_of e cfg db) (backupFilePath_of e db) \<in> set evs)"
proof (induction dbs arbitrary: w ds)
  case Nil
  show ?case by (simp add: removals_def announcements_def)
next
  case (Cons db later)
  obtain w1 ds1 where it: "backup_iteration e cfg db (w, ds) = (w1, ds1)"
    by (cases "backup_iteration e cfg db (w, ds)")
  from trace_backup_iteration [of e cfg db w ds] it
  obtain evs1 where 1: "trace w1 = trace w @ evs1" "removals evs1 = []" "announcements evs1 = [db]"
      "\<not> dump_succeeds e cfg db \<longrightarrow> Log_FailedBackup db DumpFailed \<in> set evs1"
      "dump_succeeds e cfg db \<and> \<not> upload_succeeds e cfg db \<longrightarrow> (\<exists>err. Log_FailedUpload db err \<in> set evs1)"
      "dump_succeeds e cfg db \<and> upload_succeeds e cfg db \<longrightarrow>
         PutObject (s3Bucket cfg) (s3Key_of e cfg db) (backupFilePath_of e db) \<in> set evs1"
    by auto
  from Cons.IH [of w1 ds1]
  obtain evs2 where 2: "trace (fst (backup_loop e cfg later (w1, ds1))) = trace w1 @ evs2"
      "removals evs2 = []" "announcements evs2 = later"
      "\<forall>db\<in>set later. \<not> dump_succeeds e cfg db \<longrightarrow> Log_FailedBackup db DumpFailed \<in> set evs2"
      "\<forall>db\<in>set later. dump_succeeds e cfg db \<and> \<not> upload_succeeds e cfg db \<longrightarrow>
         (\<exists>err. Log_FailedUpload db err \<in> set evs2)"
      "\<forall>db\<in>set later. dump_succeeds e cfg db \<and> upload_succeeds e cfg db \<longrightarrow>
         PutObject (s3Bucket cfg) (s3Key_of e cfg db) (backupFilePath_of e db) \<in> set evs2"
    by auto
  show ?case
  proof (intro exI [of _ "evs1 @ evs2"] conjI)
    show "trace (fst (backup_loop e cfg (db # later) (w, ds))) = trace w @ evs1 @ evs2"
      using it 1(1) 2(1) by simp
    show "removals (evs1 @ evs2) = []" using 1(2) 2(2) by (simp add: removals_append)
    show "announcements (evs1 @ evs2) = db # later"
      using 1(3) 2(3) by (simp add: announcements_append)
    show "\<forall>d\<in>set (db # later). \<not> dump_succeeds e cfg d \<longrightarrow>
            Log_FailedBackup d DumpFailed \<in> set (evs1 @ evs2)"
      using 1(4) 2(4) by auto
    show "\<forall>d\<in>set (db # later). dump_succeeds e cfg d \<and> \<not> upload_succeeds e cfg d \<longrightarrow>
            (\<exists>err. Log_FailedUpload d err \<in> set (evs1 @ evs2))"
      using 1(5) 2(5) by auto
    show "\<forall>d\<in>set (db # later). dump_succeeds e cfg d \<and> upload_succeeds e cfg d \<longrightarrow>
            PutObject (s3Bucket cfg) (s3Key_of e cfg d) (backupFilePath_of e d) \<in> set (evs1 @ evs2)"
      using 1(6) 2(6) by auto
  qed
qed

lemma files_run_deferred: "files (run_deferred ds w) = files w - set ds"
  by (induction ds arbitrary: w) (auto simp: os_Remove_def emit_def)

lemma trace_run_deferred: "trace (run_deferred ds w) = trace w @ map Remove ds"
  by (induction ds arbitrary: w) (auto simp: os_Remove_def emit_def)

lemma store_run_deferred: "store (run_deferred ds w) = store w"
  by (induction ds arbitrary: w) (auto simp: os_Remove_def emit_def)

lemma removals_map_Remove: "removals (map Remove ds) = ds"
  by (induction ds) (simp_all add: removals_def)

lemma announcements_map_Remove: "announcements (map Remove ds) = []"
  by (induction ds) (simp_all add: announcements_def)

section \<open>One iteration and the whole loop of the restore run\<close>

lemma processings_append: "processings (xs @ ys) = processings xs @ processings ys"
  by (simp add: processings_def)

lemma processings_map_Remove: "processings (map Remove ds) = []"
  by (induction ds) (simp_all add: processings_def)

lemma decode_eq:
  "decode f = (if length f < 27 then Inl SliceBoundsOutOfRange else Inr (take (length f - 27) f))"
  by (auto simp: decode_def slice_to_def nat_diff_distrib)

lemmas restore_defs = restore_iteration_def downloadFromS3_def restoreDatabase_def emit_def Let_def
  download_succeeds_def short_name_def local_path_of_def dbName_of_def restore_argv_of_def
  restore_succeeds_def decode_eq

lemma panic_restore_iteration:
  "fst (restore_iteration e cfg k (w, ds)) =
     (if short_name e cfg w k then Some SliceBoundsOutOfRange else None)"
  by (simp add: restore_defs)

lemma deferred_restore_iteration:
  "snd (snd (restore_iteration e cfg k (w, ds))) =
     (if download_succeeds e cfg w k then local_path_of e k # ds else ds)"
  by (simp add: restore_defs)

lemma files_restore_iteration:
  "files (fst (snd (restore_iteration e cfg k (w, ds)))) =
     (if aws_config_ok e (region cfg) \<and> create_ok e (local_path_of e k)
      then insert (local_path_of e k) (files w) else files w)"
  by (simp add: restore_defs)

lemma store_restore_iteration:
  "store (fst (snd (restore_iteration e cfg k (w, ds)))) = store w"
  by (simp add: restore_defs)

lemma trace_restore_iteration:
  "\<exists>evs. trace (fst (snd (restore_iteration e cfg k (w, ds)))) = trace w @ evs \<and>
         removals evs = [] \<and> processings evs = [k] \<and>
         (\<not> download_succeeds e cfg w k \<longrightarrow> (\<exists>err. Log_FailedDownload k err \<in> set evs)) \<and>
         (download_succeeds e cfg w k \<and> 27 \<le> length (Base k) \<longrightarrow>
            Exec (restore_argv_of e cfg k) \<in> set evs) \<and>
         (download_succeeds e cfg w k \<and> 27 \<le> length (Base k) \<and> \<not> restore_succeeds e cfg k \<longrightarrow>
            Log_FailedRestore (dbName_of k) RestoreFailed \<in> set evs)"
  by (auto simp: restore_defs removals_def processings_def)


lemma reached_all: "\<forall>k\<in>set ks. \<not> stops k \<Longrightarrow> reached stops ks = ks"
  by (induction ks) simp_all

lemma download_succeeds_cong:
  "store w1 = store w \<Longrightarrow> download_succeeds e cfg w1 = download_succeeds e cfg w"
  by (simp add: download_succeeds_def fun_eq_iff)

lemma short_name_cong:
  "store w1 = store w \<Longrightarrow> short_name e cfg w1 = short_name e cfg w"
  by (rule ext) (simp add: short_name_def download_succeeds_def)

lemma restore_loop_Cons:
  "restore_loop e cfg (k # later) (w, ds) =
     (if short_name e cfg w k then restore_iteration e cfg k (w, ds)
      else restore_loop e cfg later (snd (restore_iteration e cfg k (w, ds))))"
  using panic_restore_iteration [of e cfg k w ds]
  by (cases "restore_iteration e cfg k (w, ds)") (auto split: option.splits)

declare restore_loop.simps(2) [simp del]

lemma panic_restore_loop:
  "fst (restore_loop e cfg ks (w, ds)) =
     (if \<exists>k\<in>set ks. short_name e cfg w k then Some SliceBoundsOutOfRange else None)"
proof (induction ks arbitrary: w ds)
  case Nil
  show ?case by simp
next
  case (Cons k later)
  obtain p w1 ds1 where it: "restore_iteration e cfg k (w, ds) = (p, w1, ds1)"
    by (cases "restore_iteration e cfg k (w, ds)")
  have st: "store w1 = store w"
    using store_restore_iteration [of e cfg k w ds] it by simp
  show ?case
  proof (cases "short_name e cfg w k")
    case True
    then show ?thesis
      using panic_restore_iteration [of e cfg k w ds] by (simp add: restore_loop_Cons)
  next
    case False
    then show ?thesis
      using Cons.IH [of w1 ds1] it by (simp add: restore_loop_Cons short_name_cong [OF st])
  qed
qed

lemma store_restore_loop:
  "store (fst (snd (restore_loop e cfg ks (w, ds)))) = store w"
proof (induction ks arbitrary: w ds)
  case Nil
  show ?case by simp
next
  case (Cons k later)
  obtain p w1 ds1 where it: "restore_iteration e cfg k (w, ds) = (p, w1, ds1)"
    by (cases "restore_iteration e cfg k (w, ds)")
  have st: "store w1 = store w"
    using store_restore_iteration [of e cfg k w ds] it by simp
  show ?case
    using Cons.IH [of w1 ds1] it st by (simp add: restore_loop_Cons)
qed

lemma deferred_restore_loop:
  "snd (snd (restore_loop e cfg ks (w, ds))) =
     rev (map (local_path_of e)
           (filter (download_succeeds e cfg w) (reached (short_name e cfg w) ks))) @ ds"
proof (induction ks arbitrary: w ds)
  case Nil
  show ?case by simp
next
  case (Cons k later)
  obtain p w1 ds1 where it: "restore_iteration e cfg k (w, ds) = (p, w1, ds1)"
    by (cases "restore_iteration e cfg k (w, ds)")
  have st: "store w1 = store w"
    using store_restore_iteration [of e cfg k w ds] it by simp
  have d: "ds1 = (if download_succeeds e cfg w k then local_path_of e k # ds else ds)"
    using deferred_restore_iteration [of e cfg k w ds] it by simp
  show ?case
  proof (cases "short_name e cfg w k")
    case True
    then show ?thesis using it d by (simp add: restore_loop_Cons)
  next
    case False
    then show ?thesis
      using Cons.IH [of w1 ds1] it d
      by (simp add: restore_loop_Cons short_name_cong [OF st] download_succeeds_cong [OF st])
  qed
qed

lemma files_restore_loop:
  "files (fst (snd (restore_loop e cfg ks (w, ds)))) =
     files w \<union> {local_path_of e k | k. k \<in> set (reached (short_name e cfg w) ks) \<and>
                   aws_config_ok e (region cfg) \<and> create_ok e (local_path_of e k)}"
proof (induction ks arbitrary: w ds)
  case Nil
  show ?case by simp
next
  case (Cons k later)
  obtain p w1 ds1 where it: "restore_iteration e cfg k (w, ds) = (p, w1, ds1)"
    by (cases "restore_iteration e cfg k (w, ds)")
  have st: "store w1 = store w"
    using store_restore_iteration [of e cfg k w ds] it by simp
  have f: "files w1 = (if aws_config_ok e (region cfg) \<and> create_ok e (local_path_of e k)
                       then insert (local_path_of e k) (files w) else files w)"
    using files_restore_iteration [of e cfg k w ds] it by simp
  show ?case
  proof (cases "short_name e cfg w k")
    case True
    then show ?thesis using it f by (auto simp: restore_loop_Cons)
  next
    case False
    then show ?thesis
      using Cons.IH [of w1 ds1] it f
      by (auto simp: restore_loop_Cons short_name_cong [OF st])
  qed
qed

lemma trace_restore_loop:
  "\<exists>evs. trace (fst (snd (restore_loop e cfg ks (w, ds)))) = trace w @ evs \<and>
         removals evs = [] \<and> processings evs = reached (short_name e cfg w) ks \<and>
         (\<forall>k\<in>set (reached (short_name e cfg w) ks). \<not> download_succeeds e cfg w k \<longrightarrow>
            (\<exists>err. Log_FailedDownload k err \<in> set evs)) \<and>
         (\<forall>k\<in>set (reached (short_name e cfg w) ks).
            download_succeeds e cfg w k \<and> 27 \<le> length (Base k) \<longrightarrow>
            Exec (restore_argv_of e cfg k) \<in> set evs) \<and>
         (\<forall>k\<in>set (reached (short_name e cfg w) ks).
            download_succeeds e cfg w k \<and> 27 \<le> length (Base k) \<and> \<not> restore_succeeds e cfg k \<longrightarrow>
            Log_FailedRestore (dbName_of k) RestoreFailed \<in> set evs)"
proof (induction ks arbitrary: w ds)
  case Nil
  show ?case by (simp add: removals_def processings_def)
next
  case (Cons k later)
  obtain p w1 ds1 where it: "restore_iteration e cfg k (w, ds) = (p, w1, ds1)"
    by (cases "restore_iteration e cfg k (w, ds)")
  have st: "store w1 = store w"
    using store_restore_iteration [of e cfg k w ds] it by simp
  from trace_restore_iteration [of e cfg k w ds] it
  obtain evs1 where 1: "trace w1 = trace w @ evs1" "removals evs1 = []" "processings evs1 = [k]"
      "\<not> download_succeeds e cfg w k \<longrightarrow> (\<exists>err. Log_FailedDownload k err \<in> set evs1)"
      "download_succeeds e cfg w k \<and> 27 \<le> length (Base k) \<longrightarrow>
         Exec (restore_argv_of e cfg k) \<in> set evs1"
      "download_succeeds e cfg w k \<and> 27 \<le> length (Base k) \<and> \<not> restore_succeeds e cfg k \<longrightarrow>
         Log_FailedRestore (dbName_of k) RestoreFailed \<in> set evs1"
    by auto
  show ?case
  proof (cases "short_name e cfg w k")
    case True
    show ?thesis
      by (rule exI [of _ evs1]) (use True it 1 in \<open>simp add: restore_loop_Cons\<close>)
  next
    case False
    let ?r = "reached (short_name e cfg w) later"
    from Cons.IH [of w1 ds1]
    obtain evs2 where 2: "trace (fst (snd (restore_loop e cfg later (w1, ds1)))) = trace w1 @ evs2"
        "removals evs2 = []" "processings evs2 = ?r"
        "\<forall>k\<in>set ?r. \<not> download_succeeds e cfg w k \<longrightarrow> (\<exists>err. Log_FailedDownload k err \<in> set evs2)"
        "\<forall>k\<in>set ?r. download_succeeds e cfg w k \<and> 27 \<le> length (Base k) \<longrightarrow>
           Exec (restore_argv_of e cfg k) \<in> set evs2"
        "\<forall>k\<in>set ?r. download_succeeds e cfg w k \<and> 27 \<le> length (Base k) \<and>
           \<not> restore_succeeds e cfg k \<longrightarrow> Log_FailedRestore (dbName_of k) RestoreFailed \<in> set evs2"
      by (auto simp: short_name_cong [OF st] download_succeeds_cong [OF st])
    show ?thesis
    proof (intro exI [of _ "evs1 @ evs2"] conjI)
      show "trace (fst (snd (restore_loop e cfg (k # later) (w, ds)))) = trace w @ evs1 @ evs2"
        using False it 1(1) 2(1) by (simp add: restore_loop_Cons)
      show "removals (evs1 @ evs2) = []" using 1(2) 2(2) by (simp add: removals_append)
      show "processings (evs1 @ evs2) = reached (short_name e cfg w) (k # later)"
        using False 1(3) 2(3) by (simp add: processings_append)
      show "\<forall>k\<in>set (reached (short_name e cfg w) (k # later)). \<not> download_succeeds e cfg w k \<longrightarrow>
              (\<exists>err. Log_FailedDownload k err \<in> set (evs1 @ evs2))"
        using False 1(4) 2(4) by auto
      show "\<forall>k\<in>set (reached (short_name e cfg w) (k # later)).
              download_succeeds e cfg w k \<and> 27 \<le> length (Base k) \<longrightarrow>
              Exec (restore_argv_of e cfg k) \<in> set (evs1 @ evs2)"
        using False 1(5) 2(5) by auto
      show "\<forall>k\<in>set (reached (short_name e cfg w) (k # later)).
              download_succeeds e cfg w k \<and> 27 \<le> length (Base k) \<and> \<not> restore_succeeds e cfg k \<longrightarrow>
              Log_FailedRestore (dbName_of k) RestoreFailed \<in> set (evs1 @ evs2)"
        using False 1(6) 2(6) by auto
    qed
  qed
qed

section \<open>Whole runs\<close>

lemma backupAll_Inr:
  assumes "getDatabaseList e (dbHost cfg) (dbPort cfg) (dbUser cfg) (dbPassword cfg) = Inr dbs"
  shows "backupAllDatabasesToS3 e cfg w =
           (None, run_deferred (snd (backup_loop e cfg dbs (w, [])))
                    (fst (backup_loop e cfg dbs (w, []))))"
  using assms by (simp add: backupAllDatabasesToS3_def split: prod.splits)

lemma backupAll_Inl:
  assumes "getDatabaseList e (dbHost cfg) (dbPort cfg) (dbUser cfg) (dbPassword cfg) = Inl err"
  shows "backupAllDatabasesToS3 e cfg w = (Some err, w)"
  using assms by (simp add: backupAllDatabasesToS3_def)

lemma restoreAll_Inr:
  assumes "listS3BackupFiles e (s3Bucket cfg) (s3KeyPrefix cfg) (region cfg) w = (Inr keys, w1)"
  shows "restoreAllDatabasesFromS3 e cfg w =
           ((case fst (restore_loop e cfg keys (w1, [])) of
               None \<Rightarrow> Returned None | Some p \<Rightarrow> Panicked p),
            run_deferred (snd (snd (restore_loop e cfg keys (w1, []))))
              (fst (snd (restore_loop e cfg keys (w1, [])))))"
  using assms by (simp add: restoreAllDatabasesFromS3_def split: prod.splits option.splits)

lemma listS3BackupFiles_world:
  assumes "listS3BackupFiles e b p r w = (Inr keys, w1)"
  shows "w1 = emit (ListObjects b p) w \<and>
         keys = take (page_limit e) (filter (has_prefix p) (store w b))"
  using assms
  by (auto simp: listS3BackupFiles_def s3_ListObjectsV2_def Let_def split: if_splits)

lemma store_emit: "store (emit ev w) = store w"
  by (simp add: emit_def)

lemma files_emit: "files (emit ev w) = files w"
  by (simp add: emit_def)

lemma trace_emit: "trace (emit ev w) = trace w @ [ev]"
  by (simp add: emit_def)

lemma backup_main_Inr:
  assumes "getDatabaseList e ''localhost'' 5432 ''postgres'' ''postgres'' = Inr dbs"
  shows "backup_main e w = (0, snd (backupAllDatabasesToS3 e (backup_config e) w))"
proof -
  have "getDatabaseList e (dbHost (backup_config e)) (dbPort (backup_config e))
          (dbUser (backup_config e)) (dbPassword (backup_config e)) = Inr dbs"
    using assms by (simp add: backup_config_def)
  from backupAll_Inr [OF this, of w] show ?thesis by (simp add: backup_main_def)
qed

lemma announcements_backupAll:
  assumes "getDatabaseList e (dbHost cfg) (dbPort cfg) (dbUser cfg) (dbPassword cfg) = Inr dbs"
  shows "announcements (trace (snd (backupAllDatabasesToS3 e cfg w))) = announcements (trace w) @ dbs"
proof -
  from trace_backup_loop [of e cfg dbs w "[]"]
  obtain evs where "trace (fst (backup_loop e cfg dbs (w, []))) = trace w @ evs"
      "announcements evs = dbs"
    by blast
  then show ?thesis
    by (simp add: backupAll_Inr [OF assms] trace_run_deferred announcements_append
        announcements_map_Remove)
qed

lemma store_backupAll:
  assumes "getDatabaseList e (dbHost cfg) (dbPort cfg) (dbUser cfg) (dbPassword cfg) = Inr dbs"
  shows "store (snd (backupAllDatabasesToS3 e cfg w)) = store (fst (backup_loop e cfg dbs (w, [])))"
  by (simp add: backupAll_Inr [OF assms] store_run_deferred)


lemma listS3BackupFiles_ok:
  assumes "aws_config_ok e r" and "list_ok e b p"
  shows "listS3BackupFiles e b p r w =
           (Inr (take (page_limit e) (filter (has_prefix p) (store w b))), emit (ListObjects b p) w)"
  using assms by (simp add: listS3BackupFiles_def s3_ListObjectsV2_def Let_def)

lemma restore_main_code:
  "fst (restore_main e w) =
     (case fst (restoreAllDatabasesFromS3 e (restore_config e) w) of
        Returned None \<Rightarrow> 0 | Returned (Some err) \<Rightarrow> 1 | Panicked p \<Rightarrow> 2)"
  by (simp add: restore_main_def split: prod.splits outcome.splits option.splits)

section \<open>Facts about the scenarios\<close>

lemma scenario_getDatabaseList:
  "getDatabaseList scenario_env (dbHost (backup_config scenario_env))
     (dbPort (backup_config scenario_env)) (dbUser (backup_config scenario_env))
     (dbPassword (backup_config scenario_env)) = Inr [''admindb'', ''agentdb'', ''userdb'']"
  by (simp add: getDatabaseList_def backup_config_def scenario_env_def three_databases_def)

lemma scenario_list_for_main:
  "getDatabaseList scenario_env ''localhost'' 5432 ''postgres'' ''postgres'' =
     Inr [''admindb'', ''agentdb'', ''userdb'']"
  by (simp add: getDatabaseList_def scenario_env_def three_databases_def)

lemma scenario_prefix: "sprint_d (unix (start_clock scenario_env)) = ''1700000000''"
  by (simp add: scenario_env_def run_start_def render_defs)

lemma scenario_listS3BackupFiles:
  "listS3BackupFiles scenario_env (s3Bucket (restore_config scenario_env))
     (s3KeyPrefix (restore_config scenario_env)) (region (restore_config scenario_env)) bucket_world =
   (Inr [''1700000000/admindb_backup_20231114_120000.sql'',
         ''1700000000/agentdb_backup_20231114_120000.sql'',
         ''1700000000/userdb_backup_20231114_120000.sql''],
    emit (ListObjects ''kmf-db'' ''1700000000'') bucket_world)"
  by (simp add: listS3BackupFiles_def s3_ListObjectsV2_def restore_config_def scenario_env_def
      bucket_world_def empty_world_def emit_def has_prefix_def)

lemma scenario_Base:
  "Base ''1700000000/admindb_backup_20231114_120000.sql'' = ''admindb_backup_20231114_120000.sql''"
  "Base ''1700000000/agentdb_backup_20231114_120000.sql'' = ''agentdb_backup_20231114_120000.sql''"
  "Base ''1700000000/userdb_backup_20231114_120000.sql'' = ''userdb_backup_20231114_120000.sql''"
  by (simp_all add: Base_def strip_trailing_slashes_def last_element_def)

lemma scenario_paths:
  "backupFilePath_of scenario_env ''admindb'' = ''/tmp/admindb_backup_20231114_120000.sql''"
  "backupFilePath_of scenario_env ''agentdb'' = ''/tmp/agentdb_backup_20231114_120000.sql''"
  "backupFilePath_of scenario_env ''userdb'' = ''/tmp/userdb_backup_20231114_120000.sql''"
  by (simp_all add: backupFilePath_of_def Join_def Clean_def clean_element_def TempDir_def
      render_defs scenario_env_def noon_2023_11_14_def)

lemma scenario_tmp_Base:
  "Base ''/tmp/admindb_backup_20231114_120000.sql'' = ''admindb_backup_20231114_120000.sql''"
  "Base ''/tmp/userdb_backup_20231114_120000.sql'' = ''userdb_backup_20231114_120000.sql''"
  by (simp_all add: Base_def strip_trailing_slashes_def last_element_def)

lemma scenario_keys:
  "s3Key_of scenario_env (backup_config scenario_env) ''admindb'' =
     ''1700000000/admindb_backup_20231114_120000.sql''"
  "s3Key_of scenario_env (backup_config scenario_env) ''userdb'' =
     ''1700000000/userdb_backup_20231114_120000.sql''"
  by (simp_all add: s3Key_of_def backup_config_def scenario_prefix scenario_paths scenario_tmp_Base)

lemma scenario_local_paths:
  "local_path_of scenario_env ''1700000000/admindb_backup_20231114_120000.sql'' =
     ''/tmp/admindb_backup_20231114_120000.sql''"
  "local_path_of scenario_env ''1700000000/agentdb_backup_20231114_120000.sql'' =
     ''/tmp/agentdb_backup_20231114_120000.sql''"
  "local_path_of scenario_env ''1700000000/userdb_backup_20231114_120000.sql'' =
     ''/tmp/userdb_backup_20231114_120000.sql''"
  by (simp_all add: local_path_of_def scenario_Base Join_def Clean_def clean_element_def
      TempDir_def scenario_env_def)

lemma scenario_dumps:
  "dump_exit_of scenario_env cfg ''admindb'' = DumpOk"
  "dump_exit_of scenario_env cfg ''agentdb'' = DumpErr True"
  "dump_exit_of scenario_env cfg ''userdb'' = DumpOk"
  by (simp_all add: dump_exit_of_def pg_dump_argv_def scenario_env_def)

lemma scenario_downloads:
  "download_succeeds scenario_env (restore_config scenario_env) bucket_world
     ''1700000000/admindb_backup_20231114_120000.sql''"
  "download_succeeds scenario_env (restore_config scenario_env) bucket_world
     ''1700000000/agentdb_backup_20231114_120000.sql''"
  "\<not> download_succeeds scenario_env (restore_config scenario_env) bucket_world
     ''1700000000/userdb_backup_20231114_120000.sql''"
  by (simp_all add: download_succeeds_def restore_config_def scenario_env_def bucket_world_def
      empty_world_def)

lemma scenario_no_short_name:
  "\<forall>k\<in>set [''1700000000/admindb_backup_20231114_120000.sql'',
             ''1700000000/agentdb_backup_20231114_120000.sql'',
             ''1700000000/userdb_backup_20231114_120000.sql''].
     \<not> short_name scenario_env (restore_config scenario_env) bucket_world k"
  by (simp add: short_name_def scenario_Base)

lemma slash_list:
  "getDatabaseList slash_env ''localhost'' 5432 ''postgres'' ''postgres'' = Inr [''a/b'']"
  by (simp add: getDatabaseList_def slash_env_def scenario_env_def)

lemma slash_path: "backupFilePath_of slash_env ''a/b'' = ''/tmp/a/b_backup_20231114_120000.sql''"
  by (simp add: backupFilePath_of_def Join_def Clean_def clean_element_def TempDir_def
      render_defs slash_env_def scenario_env_def noon_2023_11_14_def)

lemma slash_Base: "Base ''/tmp/a/b_backup_20231114_120000.sql'' = ''b_backup_20231114_120000.sql''"
  by (simp add: Base_def strip_trailing_slashes_def last_element_def)

lemma notes_list:
  "listS3BackupFiles unset_prefix_env (s3Bucket (restore_config unset_prefix_env))
     (s3KeyPrefix (restore_config unset_prefix_env)) (region (restore_config unset_prefix_env))
     notes_world =
   (Inr [''notes.txt''], emit (ListObjects ''kmf-db'' []) notes_world)"
  by (simp add: listS3BackupFiles_def s3_ListObjectsV2_def restore_config_def unset_prefix_env_def
      scenario_env_def notes_world_def empty_world_def emit_def has_prefix_def)

lemma notes_Base: "Base ''notes.txt'' = ''notes.txt''"
  by (simp add: Base_def strip_trailing_slashes_def last_element_def)

lemma notes_short:
  "short_name unset_prefix_env (restore_config unset_prefix_env) notes_world ''notes.txt''"
  by (simp add: short_name_def download_succeeds_def notes_Base restore_config_def
      unset_prefix_env_def scenario_env_def notes_world_def empty_world_def)

lemma notes_path: "local_path_of unset_prefix_env ''notes.txt'' = ''/tmp/notes.txt''"
  by (simp add: local_path_of_def notes_Base Join_def Clean_def clean_element_def TempDir_def
      unset_prefix_env_def scenario_env_def)

section \<open>The claims of the specification\<close>

subsection \<open>C1: round trip of the artifact namer\<close>

text \<open>
  C1. Round trip of the artifact namer: for every database name \<open>n\<close> and every timestamp
  \<open>t\<close> that the layout writes as \<open>YYYYMMDD_HHMMSS\<close> (a normalised time with a year of
  four digits), stripping the trailing 27 bytes of the filename encoded from \<open>(n, t)\<close>
  returns exactly \<open>n\<close>. No condition on \<open>n\<close> is needed: names that contain the suffix
  pattern round-trip as well.
\<close>

theorem decode_encode_roundtrip:
  assumes "normalised t" and "four_digit_year t"
  shows "decode (backupFilename_of n t) = Inr n"
proof -
  have "length (''_backup_'' @ Format_20060102_150405 t @ ''.sql'') = 27"
    using length_Format [OF assms] by simp
  then have "decode (n @ (''_backup_'' @ Format_20060102_150405 t @ ''.sql'')) = Inr n"
    by (rule decode_append)
  then show ?thesis by (simp add: backupFilename_of_def)
qed

theorem decode_encode_roundtrip_witness:
  "normalised noon_2023_11_14 \<and> four_digit_year noon_2023_11_14 \<and>
   backupFilename_of ''admindb'' noon_2023_11_14 = ''admindb_backup_20231114_120000.sql'' \<and>
   decode (backupFilename_of ''admindb'' noon_2023_11_14) = Inr ''admindb''"
proof -
  have n: "normalised noon_2023_11_14"
    by (simp add: normalised_def noon_2023_11_14_def)
  have y: "four_digit_year noon_2023_11_14"
    by (simp add: four_digit_year_def noon_2023_11_14_def)
  have f: "backupFilename_of ''admindb'' noon_2023_11_14 = ''admindb_backup_20231114_120000.sql''"
    by (simp add: render_defs noon_2023_11_14_def)
  from n y f decode_encode_roundtrip [OF n y, of "''admindb''"] show ?thesis by simp
qed

text \<open>
  The bound on the year is the meaning of \<open>YYYY\<close>: Go writes a year above 9999 with all
  its digits, the suffix then has 28 bytes, and the decoded name keeps one byte of it.
\<close>

lemma decode_encode_year_10000:
  "decode (backupFilename_of ''admindb'' (noon_2023_11_14\<lparr>year := 10000\<rparr>)) = Inr ''admindb_''"
  by (simp add: decode_def slice_to_def render_defs noon_2023_11_14_def)

subsection \<open>C2: per-item failure isolation\<close>

text \<open>
  C2. Per-item failure isolation, in both loops. Backup: whenever the enumeration returns
  a list, the run returns no error whatever the dump and upload steps do; every database is
  announced in turn, so the loop goes on after a failure; a failed dump and a failed upload
  are logged for their database, and a database whose dump and upload succeed is uploaded
  whatever happened to the others. Restore: whenever the listing returns keys and the run
  suffers only per-item failures (no downloaded file has a basename shorter than the 27
  bytes that the slice expression needs), the run returns no error; every key is announced
  in turn; a failed download and a failed restore are logged, and the restore tool is run for
  every key that was downloaded.
\<close>

theorem per_item_failures_are_isolated:
  "(getDatabaseList e (dbHost cfg) (dbPort cfg) (dbUser cfg) (dbPassword cfg) = Inr dbs \<longrightarrow>
      fst (backupAllDatabasesToS3 e cfg w) = None \<and>
      (cfg = backup_config e \<longrightarrow> fst (backup_main e w) = 0) \<and>
      (\<exists>evs. trace (snd (backupAllDatabasesToS3 e cfg w)) = trace w @ evs \<and>
         announcements evs = dbs \<and>
         (\<forall>db\<in>set dbs. \<not> dump_succeeds e cfg db \<longrightarrow> Log_FailedBackup db DumpFailed \<in> set evs) \<and>
         (\<forall>db\<in>set dbs. dump_succeeds e cfg db \<and> \<not> upload_succeeds e cfg db \<longrightarrow>
            (\<exists>err. Log_FailedUpload db err \<in> set evs)) \<and>
         (\<forall>db\<in>set dbs. dump_succeeds e cfg db \<and> upload_succeeds e cfg db \<longrightarrow>
            PutObject (s3Bucket cfg) (s3Key_of e cfg db) (backupFilePath_of e db) \<in> set evs))) \<and>
   (listS3BackupFiles e' (s3Bucket cfg') (s3KeyPrefix cfg') (region cfg') w' = (Inr keys, w1) \<and>
    (\<forall>k\<in>set keys. \<not> short_name e' cfg' w' k) \<longrightarrow>
      fst (restoreAllDatabasesFromS3 e' cfg' w') = Returned None \<and>
      (cfg' = restore_config e' \<longrightarrow> fst (restore_main e' w') = 0) \<and>
      (\<exists>evs. trace (snd (restoreAllDatabasesFromS3 e' cfg' w')) = trace w1 @ evs \<and>
         processings evs = keys \<and>
         (\<forall>k\<in>set keys. \<not> download_succeeds e' cfg' w' k \<longrightarrow>
            (\<exists>err. Log_FailedDownload k err \<in> set evs)) \<and>
         (\<forall>k\<in>set keys. download_succeeds e' cfg' w' k \<longrightarrow>
            Exec (restore_argv_of e' cfg' k) \<in> set evs) \<and>
         (\<forall>k\<in>set keys. download_succeeds e' cfg' w' k \<and> \<not> restore_succeeds e' cfg' k \<longrightarrow>
            Log_FailedRestore (dbName_of k) RestoreFailed \<in> set evs)))"
proof (intro conjI impI)
  assume list: "getDatabaseList e (dbHost cfg) (dbPort cfg) (dbUser cfg) (dbPassword cfg) = Inr dbs"
  show none: "fst (backupAllDatabasesToS3 e cfg w) = None"
    by (simp add: backupAll_Inr [OF list])
  show "fst (backup_main e w) = 0" if "cfg = backup_config e"
    using that backupAll_Inr [OF list, of w] by (simp add: backup_main_def)
  from trace_backup_loop [of e cfg dbs w "[]"]
  obtain evs where evs: "trace (fst (backup_loop e cfg dbs (w, []))) = trace w @ evs"
      "announcements evs = dbs"
      "\<forall>db\<in>set dbs. \<not> dump_succeeds e cfg db \<longrightarrow> Log_FailedBackup db DumpFailed \<in> set evs"
      "\<forall>db\<in>set dbs. dump_succeeds e cfg db \<and> \<not> upload_succeeds e cfg db \<longrightarrow>
         (\<exists>err. Log_FailedUpload db err \<in> set evs)"
      "\<forall>db\<in>set dbs. dump_succeeds e cfg db \<and> upload_succeeds e cfg db \<longrightarrow>
         PutObject (s3Bucket cfg) (s3Key_of e cfg db) (backupFilePath_of e db) \<in> set evs"
    by blast
  let ?ds = "snd (backup_loop e cfg dbs (w, []))"
  show "\<exists>evs. trace (snd (backupAllDatabasesToS3 e cfg w)) = trace w @ evs \<and>
         announcements evs = dbs \<and>
         (\<forall>db\<in>set dbs. \<not> dump_succeeds e cfg db \<longrightarrow> Log_FailedBackup db DumpFailed \<in> set evs) \<and>
         (\<forall>db\<in>set dbs. dump_succeeds e cfg db \<and> \<not> upload_succeeds e cfg db \<longrightarrow>
            (\<exists>err. Log_FailedUpload db err \<in> set evs)) \<and>
         (\<forall>db\<in>set dbs. dump_succeeds e cfg db \<and> upload_succeeds e cfg db \<longrightarrow>
            PutObject (s3Bucket cfg) (s3Key_of e cfg db) (backupFilePath_of e db) \<in> set evs)"
  proof (intro exI [of _ "evs @ map Remove ?ds"] conjI)
    show "trace (snd (backupAllDatabasesToS3 e cfg w)) = trace w @ evs @ map Remove ?ds"
      by (simp add: backupAll_Inr [OF list] trace_run_deferred evs(1))
    show "announcements (evs @ map Remove ?ds) = dbs"
      using evs(2) by (simp add: announcements_append announcements_map_Remove)
  qed (use evs(3-5) in auto)
next
  assume a: "listS3BackupFiles e' (s3Bucket cfg') (s3KeyPrefix cfg') (region cfg') w' = (Inr keys, w1) \<and>
             (\<forall>k\<in>set keys. \<not> short_name e' cfg' w' k)"
  then have list: "listS3BackupFiles e' (s3Bucket cfg') (s3KeyPrefix cfg') (region cfg') w' = (Inr keys, w1)"
    and ok: "\<forall>k\<in>set keys. \<not> short_name e' cfg' w' k" by simp_all
  have st: "store w1 = store w'"
    using listS3BackupFiles_world [OF list] by (simp add: store_emit)
  have ok1: "\<forall>k\<in>set keys. \<not> short_name e' cfg' w1 k"
    using ok by (simp add: short_name_cong [OF st])
  have r: "reached (short_name e' cfg' w1) keys = keys"
    using ok1 by (rule reached_all)
  show none: "fst (restoreAllDatabasesFromS3 e' cfg' w') = Returned None"
    using ok1 by (simp add: restoreAll_Inr [OF list] panic_restore_loop)
  show "fst (restore_main e' w') = 0" if "cfg' = restore_config e'"
    using none that by (simp add: restore_main_code)
  from trace_restore_loop [of e' cfg' keys w1 "[]"] r
  obtain evs where evs: "trace (fst (snd (restore_loop e' cfg' keys (w1, [])))) = trace w1 @ evs"
      "processings evs = keys"
      "\<forall>k\<in>set keys. \<not> download_succeeds e' cfg' w1 k \<longrightarrow> (\<exists>err. Log_FailedDownload k err \<in> set evs)"
      "\<forall>k\<in>set keys. download_succeeds e' cfg' w1 k \<and> 27 \<le> length (Base k) \<longrightarrow>
         Exec (restore_argv_of e' cfg' k) \<in> set evs"
      "\<forall>k\<in>set keys. download_succeeds e' cfg' w1 k \<and> 27 \<le> length (Base k) \<and>
         \<not> restore_succeeds e' cfg' k \<longrightarrow> Log_FailedRestore (dbName_of k) RestoreFailed \<in> set evs"
    by auto
  have long: "\<forall>k\<in>set keys. download_succeeds e' cfg' w' k \<longrightarrow> 27 \<le> length (Base k)"
    using ok by (auto simp: short_name_def)
  let ?ds = "snd (snd (restore_loop e' cfg' keys (w1, [])))"
  show "\<exists>evs. trace (snd (restoreAllDatabasesFromS3 e' cfg' w')) = trace w1 @ evs \<and>
         processings evs = keys \<and>
         (\<forall>k\<in>set keys. \<not> download_succeeds e' cfg' w' k \<longrightarrow>
            (\<exists>err. Log_FailedDownload k err \<in> set evs)) \<and>
         (\<forall>k\<in>set keys. download_succeeds e' cfg' w' k \<longrightarrow>
            Exec (restore_argv_of e' cfg' k) \<in> set evs) \<and>
         (\<forall>k\<in>set keys. download_succeeds e' cfg' w' k \<and> \<not> restore_succeeds e' cfg' k \<longrightarrow>
            Log_FailedRestore (dbName_of k) RestoreFailed \<in> set evs)"
  proof (intro exI [of _ "evs @ map Remove ?ds"] conjI)
    show "trace (snd (restoreAllDatabasesFromS3 e' cfg' w')) = trace w1 @ evs @ map Remove ?ds"
      by (simp add: restoreAll_Inr [OF list] trace_run_deferred evs(1))
    show "processings (evs @ map Remove ?ds) = keys"
      using evs(2) by (simp add: processings_append processings_map_Remove)
  qed (use evs(3-5) long in \<open>auto simp: download_succeeds_cong [OF st]\<close>)
qed

theorem per_item_failures_are_isolated_witness:
  "fst (backup_main scenario_env empty_world) = 0 \<and>
   (\<exists>evs. trace (snd (backupAllDatabasesToS3 scenario_env (backup_config scenario_env) empty_world)) =
            trace empty_world @ evs \<and>
          announcements evs = [''admindb'', ''agentdb'', ''userdb''] \<and>
          Log_FailedBackup ''agentdb'' DumpFailed \<in> set evs \<and>
          (\<exists>err. Log_FailedUpload ''userdb'' err \<in> set evs) \<and>
          PutObject ''kmf-db'' ''1700000000/admindb_backup_20231114_120000.sql''
            ''/tmp/admindb_backup_20231114_120000.sql'' \<in> set evs) \<and>
   fst (restore_main scenario_env bucket_world) = 0 \<and>
   (\<exists>evs. trace (snd (restoreAllDatabasesFromS3 scenario_env (restore_config scenario_env) bucket_world)) =
            trace (emit (ListObjects ''kmf-db'' ''1700000000'') bucket_world) @ evs \<and>
          processings evs = [''1700000000/admindb_backup_20231114_120000.sql'',
                             ''1700000000/agentdb_backup_20231114_120000.sql'',
                             ''1700000000/userdb_backup_20231114_120000.sql''] \<and>
          (\<exists>err. Log_FailedDownload ''1700000000/userdb_backup_20231114_120000.sql'' err \<in> set evs) \<and>
          Log_FailedRestore ''agentdb'' RestoreFailed \<in> set evs)"
proof -
  let ?bc = "backup_config scenario_env" and ?rc = "restore_config scenario_env"
  let ?keys = "[''1700000000/admindb_backup_20231114_120000.sql'',
                ''1700000000/agentdb_backup_20231114_120000.sql'',
                ''1700000000/userdb_backup_20231114_120000.sql'']"
  have long: "\<forall>k\<in>set ?keys. \<not> short_name scenario_env ?rc bucket_world k"
    by (simp add: short_name_def scenario_Base)
  have dump: "\<not> dump_succeeds scenario_env ?bc ''agentdb''"
    by (simp add: dump_succeeds_def dump_exit_of_def pg_dump_argv_def scenario_env_def)
  have down: "\<not> download_succeeds scenario_env ?rc bucket_world
                  ''1700000000/userdb_backup_20231114_120000.sql''"
    by (simp add: download_succeeds_def scenario_env_def)
  have name: "dbName_of ''1700000000/agentdb_backup_20231114_120000.sql'' = ''agentdb''"
    by (simp add: dbName_of_def scenario_Base)
  have rest: "download_succeeds scenario_env ?rc bucket_world
                ''1700000000/agentdb_backup_20231114_120000.sql'' \<and>
              \<not> restore_succeeds scenario_env ?rc ''1700000000/agentdb_backup_20231114_120000.sql''"
    by (simp add: download_succeeds_def restore_succeeds_def restore_argv_of_def pg_restore_argv_def
        name restore_config_def scenario_env_def bucket_world_def empty_world_def)
  note inst = per_item_failures_are_isolated [of scenario_env ?bc "[''admindb'', ''agentdb'', ''userdb'']"
      empty_world scenario_env ?rc bucket_world ?keys
      "emit (ListObjects ''kmf-db'' ''1700000000'') bucket_world"]
  from inst scenario_getDatabaseList scenario_listS3BackupFiles long
  have b: "fst (backup_main scenario_env empty_world) = 0"
    and r: "fst (restore_main scenario_env bucket_world) = 0"
    by blast+
  have up: "dump_succeeds scenario_env ?bc ''userdb'' \<and> \<not> upload_succeeds scenario_env ?bc ''userdb''"
    by (simp add: dump_succeeds_def scenario_dumps upload_succeeds_def scenario_keys)
       (simp add: scenario_env_def backup_config_def)
  have put: "dump_succeeds scenario_env ?bc ''admindb'' \<and> upload_succeeds scenario_env ?bc ''admindb''"
    by (simp add: dump_succeeds_def scenario_dumps upload_succeeds_def scenario_keys)
       (simp add: scenario_env_def backup_config_def)
  have key: "PutObject (s3Bucket ?bc) (s3Key_of scenario_env ?bc ''admindb'')
               (backupFilePath_of scenario_env ''admindb'') =
             PutObject ''kmf-db'' ''1700000000/admindb_backup_20231114_120000.sql''
               ''/tmp/admindb_backup_20231114_120000.sql''"
    by (simp add: scenario_keys scenario_paths) (simp add: backup_config_def)
  from inst scenario_getDatabaseList
  have "\<exists>evs. trace (snd (backupAllDatabasesToS3 scenario_env ?bc empty_world)) =
                   trace empty_world @ evs \<and>
                 announcements evs = [''admindb'', ''agentdb'', ''userdb''] \<and>
                 (\<not> dump_succeeds scenario_env ?bc ''agentdb'' \<longrightarrow>
                    Log_FailedBackup ''agentdb'' DumpFailed \<in> set evs) \<and>
                 (dump_succeeds scenario_env ?bc ''userdb'' \<and>
                  \<not> upload_succeeds scenario_env ?bc ''userdb'' \<longrightarrow>
                    (\<exists>err. Log_FailedUpload ''userdb'' err \<in> set evs)) \<and>
                 (dump_succeeds scenario_env ?bc ''admindb'' \<and>
                  upload_succeeds scenario_env ?bc ''admindb'' \<longrightarrow>
                    PutObject (s3Bucket ?bc) (s3Key_of scenario_env ?bc ''admindb'')
                      (backupFilePath_of scenario_env ''admindb'') \<in> set evs)"
    by fastforce
  with dump up put key
  have bt: "\<exists>evs. trace (snd (backupAllDatabasesToS3 scenario_env ?bc empty_world)) =
                   trace empty_world @ evs \<and>
                 announcements evs = [''admindb'', ''agentdb'', ''userdb''] \<and>
                 Log_FailedBackup ''agentdb'' DumpFailed \<in> set evs \<and>
                 (\<exists>err. Log_FailedUpload ''userdb'' err \<in> set evs) \<and>
                 PutObject ''kmf-db'' ''1700000000/admindb_backup_20231114_120000.sql''
                   ''/tmp/admindb_backup_20231114_120000.sql'' \<in> set evs"
    by metis
  from inst scenario_listS3BackupFiles long down rest name
  have rt: "\<exists>evs. trace (snd (restoreAllDatabasesFromS3 scenario_env ?rc bucket_world)) =
                   trace (emit (ListObjects ''kmf-db'' ''1700000000'') bucket_world) @ evs \<and>
                 processings evs = ?keys \<and>
                 (\<exists>err. Log_FailedDownload ''1700000000/userdb_backup_20231114_120000.sql'' err \<in> set evs) \<and>
                 Log_FailedRestore ''agentdb'' RestoreFailed \<in> set evs"
    by fastforce
  from b bt r rt show ?thesis by blast
qed

subsection \<open>C3: decoding a filename\<close>

text \<open>
  C3. The claim is that decoding returns a string for every filename. The slice expression
  \<open>backupFilename[:len(backupFilename)-27]\<close> has a negative bound for a filename shorter
  than 27 bytes, and the Go runtime panics there: for \<open>x.sql\<close> decoding does not return.
\<close>

theorem decode_of_a_short_filename_panics:
  "decode ''x.sql'' = Inl SliceBoundsOutOfRange"
  by (simp add: decode_def slice_to_def)

text \<open>
  For every filename of at least 27 bytes, well-formed or not, decoding does return: the
  filename without its last 27 bytes, with no validation.
\<close>

lemma decode_returns_iff: "(\<exists>n. decode f = Inr n) \<longleftrightarrow> 27 \<le> length f"
  by (auto simp: decode_eq)

lemma decode_long_filename: "27 \<le> length f \<Longrightarrow> decode f = Inr (take (length f - 27) f)"
  by (simp add: decode_eq)

subsection \<open>C4: the layout of the stored keys\<close>

text \<open>
  C4, as amended. After a backup run whose enumeration returned \<open>dbs\<close>, the keys of the
  bucket are those it held before and, for every database whose dump and upload succeeded,
  the run's prefix (the Unix seconds at the start of the process, in decimal), a slash, and
  the basename of the local file. For a database name without a slash that basename is
  \<open><databaseName>_backup_<YYYYMMDD_HHMMSS>.sql\<close>.
\<close>

theorem uploaded_key_layout:
  assumes "getDatabaseList e ''localhost'' 5432 ''postgres'' ''postgres'' = Inr dbs"
  shows "set (store (snd (backup_main e w)) ''kmf-db'') =
           set (store w ''kmf-db'') \<union>
           {sprint_d (unix (start_clock e)) @ ''/'' @ Base (backupFilePath_of e db) | db.
              db \<in> set dbs \<and> dump_succeeds e (backup_config e) db \<and>
              upload_succeeds e (backup_config e) db} \<and>
         (\<forall>db. CHR ''/'' \<notin> set db \<longrightarrow>
            Base (backupFilePath_of e db) =
              db @ ''_backup_'' @ Format_20060102_150405 (dump_clock e db) @ ''.sql'')"
proof
  let ?cfg = "backup_config e"
  have list: "getDatabaseList e (dbHost ?cfg) (dbPort ?cfg) (dbUser ?cfg) (dbPassword ?cfg) = Inr dbs"
    using assms by (simp add: backup_config_def)
  have b: "s3Bucket ?cfg = ''kmf-db''" by (simp add: backup_config_def)
  have k: "\<And>db. s3Key_of e ?cfg db =
             sprint_d (unix (start_clock e)) @ ''/'' @ Base (backupFilePath_of e db)"
    by (simp add: s3Key_of_def backup_config_def)
  have "store (snd (backup_main e w)) = store (fst (backup_loop e ?cfg dbs (w, [])))"
    by (simp add: backup_main_Inr [OF assms] store_backupAll [OF list])
  with store_backup_loop [of e ?cfg dbs w "[]"]
  show "set (store (snd (backup_main e w)) ''kmf-db'') =
           set (store w ''kmf-db'') \<union>
           {sprint_d (unix (start_clock e)) @ ''/'' @ Base (backupFilePath_of e db) | db.
              db \<in> set dbs \<and> dump_succeeds e ?cfg db \<and> upload_succeeds e ?cfg db}"
    unfolding b k by simp
  show "\<forall>db. CHR ''/'' \<notin> set db \<longrightarrow>
          Base (backupFilePath_of e db) =
            db @ ''_backup_'' @ Format_20060102_150405 (dump_clock e db) @ ''.sql''"
    by (simp add: Base_backupFilePath_of backupFilename_of_def)
qed

theorem uploaded_key_layout_witness:
  "''1700000000/admindb_backup_20231114_120000.sql'' \<in>
     set (store (snd (backup_main scenario_env empty_world)) ''kmf-db'') \<and>
   Base (backupFilePath_of scenario_env ''admindb'') = ''admindb_backup_20231114_120000.sql''"
proof -
  let ?cfg = "backup_config scenario_env"
  note inst = uploaded_key_layout [OF scenario_list_for_main, of empty_world]
  have up: "upload_succeeds scenario_env ?cfg ''admindb''"
    by (simp add: upload_succeeds_def scenario_keys) (simp add: scenario_env_def backup_config_def)
  have dump: "dump_succeeds scenario_env ?cfg ''admindb''"
    by (simp add: dump_succeeds_def scenario_dumps)
  have fmt: "''admindb'' @ ''_backup_'' @ Format_20060102_150405 (dump_clock scenario_env ''admindb'') @ ''.sql'' =
             ''admindb_backup_20231114_120000.sql''"
    by (simp add: scenario_env_def noon_2023_11_14_def render_defs)
  from inst have "Base (backupFilePath_of scenario_env ''admindb'') =
      ''admindb'' @ ''_backup_'' @ Format_20060102_150405 (dump_clock scenario_env ''admindb'') @ ''.sql''"
    by simp
  with fmt have 2: "Base (backupFilePath_of scenario_env ''admindb'') = ''admindb_backup_20231114_120000.sql''"
    by simp
  have "sprint_d (unix (start_clock scenario_env)) @ ''/'' @ Base (backupFilePath_of scenario_env ''admindb'')
        \<in> {sprint_d (unix (start_clock scenario_env)) @ ''/'' @ Base (backupFilePath_of scenario_env db) | db.
              db \<in> set [''admindb'', ''agentdb'', ''userdb''] \<and> dump_succeeds scenario_env ?cfg db \<and>
              upload_succeeds scenario_env ?cfg db}"
    using up dump by auto
  with inst have "sprint_d (unix (start_clock scenario_env)) @ ''/'' @ Base (backupFilePath_of scenario_env ''admindb'')
        \<in> set (store (snd (backup_main scenario_env empty_world)) ''kmf-db'')"
    by blast
  then have 1: "''1700000000/admindb_backup_20231114_120000.sql'' \<in>
     set (store (snd (backup_main scenario_env empty_world)) ''kmf-db'')"
    by (simp add: 2 scenario_prefix)
  from 1 2 show ?thesis by blast
qed

text \<open>
  The claim as stated gives the key \<open><epochPrefix>/<databaseName>_backup_<timestamp>.sql\<close>
  for every uploaded artifact. For the database \<open>a/b\<close> the local file is
  \<open>/tmp/a/b_backup_20231114_120000.sql\<close>, its basename drops \<open>a/\<close>, and the key stored is
  not the one the claim states.
\<close>

theorem key_of_a_name_with_a_slash:
  "store (snd (backup_main slash_env empty_world)) ''kmf-db'' =
     [''1700000000/b_backup_20231114_120000.sql''] \<and>
   sprint_d (unix (start_clock slash_env)) @ ''/'' @
     backupFilename_of ''a/b'' (dump_clock slash_env ''a/b'') =
     ''1700000000/a/b_backup_20231114_120000.sql'' \<and>
   sprint_d (unix (start_clock slash_env)) @ ''/'' @
     backupFilename_of ''a/b'' (dump_clock slash_env ''a/b'') \<notin>
     set (store (snd (backup_main slash_env empty_world)) ''kmf-db'')"
proof -
  let ?cfg = "backup_config slash_env"
  have list: "getDatabaseList slash_env (dbHost ?cfg) (dbPort ?cfg) (dbUser ?cfg) (dbPassword ?cfg) =
                Inr [''a/b'']"
    using slash_list by (simp add: backup_config_def)
  have dump: "dump_succeeds slash_env ?cfg ''a/b''"
    by (simp add: dump_succeeds_def dump_exit_of_def pg_dump_argv_def slash_env_def scenario_env_def)
  have pre: "sprint_d (unix (start_clock slash_env)) = ''1700000000''"
    by (simp add: slash_env_def scenario_env_def run_start_def render_defs)
  have key: "s3Key_of slash_env ?cfg ''a/b'' = ''1700000000/b_backup_20231114_120000.sql''"
    by (simp add: s3Key_of_def backup_config_def pre slash_path slash_Base)
  have up: "upload_succeeds slash_env ?cfg ''a/b''"
    by (simp add: upload_succeeds_def key) (simp add: slash_env_def scenario_env_def backup_config_def)
  have b: "s3Bucket ?cfg = ''kmf-db''" by (simp add: backup_config_def)
  have "store (snd (backup_main slash_env empty_world)) =
          store (fst (backup_iteration slash_env ?cfg ''a/b'' (empty_world, [])))"
    by (simp add: backup_main_Inr [OF slash_list] store_backupAll [OF list])
  also have "\<dots> = (store empty_world)(''kmf-db'' :=
                 put_key ''1700000000/b_backup_20231114_120000.sql'' (store empty_world ''kmf-db''))"
    by (simp add: store_backup_iteration dump up key b)
  finally have 1: "store (snd (backup_main slash_env empty_world)) ''kmf-db'' =
                  [''1700000000/b_backup_20231114_120000.sql'']"
    by (simp add: put_key_def empty_world_def)
  have 2: "sprint_d (unix (start_clock slash_env)) @ ''/'' @
             backupFilename_of ''a/b'' (dump_clock slash_env ''a/b'') =
           ''1700000000/a/b_backup_20231114_120000.sql''"
    by (simp add: pre) (simp add: slash_env_def scenario_env_def noon_2023_11_14_def render_defs)
  have 3: "sprint_d (unix (start_clock slash_env)) @ ''/'' @
             backupFilename_of ''a/b'' (dump_clock slash_env ''a/b'') \<notin>
           set (store (snd (backup_main slash_env empty_world)) ''kmf-db'')"
    unfolding 1 2 by simp
  from 1 2 3 show ?thesis by blast
qed

subsection \<open>C5: errors during the enumeration\<close>

text \<open>
  C5. The claim is that every connectivity or query error during the enumeration aborts
  the run and that no partial list is returned or acted upon. \<open>getDatabaseList\<close> checks
  \<open>sql.Open\<close>, \<open>db.Query\<close> and \<open>rows.Scan\<close>, but never \<open>rows.Err()\<close>: when the
  connection breaks after the first row, \<open>rows.Next()\<close> returns false, the loop ends, and the
  one name read so far is returned without an error; the run backs up that database only
  and exits with status 0.
\<close>

theorem interrupted_enumeration_is_taken_for_complete:
  "rows_err (server interrupted_env
      ''host=localhost port=5432 user=postgres password=postgres dbname=postgres sslmode=disable'') \<and>
   getDatabaseList interrupted_env ''localhost'' 5432 ''postgres'' ''postgres'' = Inr [''admindb''] \<and>
   fst (backup_main interrupted_env empty_world) = 0 \<and>
   announcements (trace (snd (backup_main interrupted_env empty_world))) = [''admindb'']"
proof -
  let ?cfg = "backup_config interrupted_env"
  have 1: "rows_err (server interrupted_env
      ''host=localhost port=5432 user=postgres password=postgres dbname=postgres sslmode=disable'')"
    by (simp add: interrupted_env_def)
  have 2: "getDatabaseList interrupted_env ''localhost'' 5432 ''postgres'' ''postgres'' =
             Inr [''admindb'']"
    by (simp add: getDatabaseList_def interrupted_env_def)
  then have list: "getDatabaseList interrupted_env (dbHost ?cfg) (dbPort ?cfg) (dbUser ?cfg)
                     (dbPassword ?cfg) = Inr [''admindb'']"
    by (simp add: backup_config_def)
  have 3: "fst (backup_main interrupted_env empty_world) = 0"
    by (simp add: backup_main_Inr [OF 2])
  have 4: "announcements (trace (snd (backup_main interrupted_env empty_world))) = [''admindb'']"
    by (simp add: backup_main_Inr [OF 2] announcements_backupAll [OF list])
       (simp add: empty_world_def announcements_def)
  from 1 2 3 4 show ?thesis by blast
qed

text \<open>
  The errors that the function does check abort the run before any database is touched.
\<close>

lemma checked_enumeration_errors_abort:
  assumes "getDatabaseList e ''localhost'' 5432 ''postgres'' ''postgres'' = Inl err"
  shows "backup_main e w = (1, emit (Log_Fatal err) w)"
proof -
  have "getDatabaseList e (dbHost (backup_config e)) (dbPort (backup_config e))
          (dbUser (backup_config e)) (dbPassword (backup_config e)) = Inl err"
    using assms by (simp add: backup_config_def)
  from backupAll_Inl [OF this, of w] show ?thesis by (simp add: backup_main_def)
qed

lemma scan_error_aborts: "ScanErr \<in> set rs \<Longrightarrow> scan_rows rs databases = Inl ScanFailed"
  by (induction rs databases rule: scan_rows.induct) auto

subsection \<open>C6: the listing is a single page\<close>

text \<open>
  C6. When the configuration loads and the listing request succeeds, \<open>listS3BackupFiles\<close>
  makes exactly one listing request and returns the keys of its single page: the first
  \<open>page_limit\<close> keys of the bucket that begin with the prefix. When more keys match than
  one page holds, the result is not an error but a list of \<open>page_limit\<close> keys, fewer than
  match.
\<close>

theorem listing_is_a_single_page:
  assumes "aws_config_ok e r" and "list_ok e b p"
  shows "\<exists>keys w1. listS3BackupFiles e b p r w = (Inr keys, w1) \<and>
           keys = take (page_limit e) (filter (has_prefix p) (store w b)) \<and>
           trace w1 = trace w @ [ListObjects b p] \<and>
           (page_limit e < length (filter (has_prefix p) (store w b)) \<longrightarrow>
              length keys = page_limit e \<and>
              length keys < length (filter (has_prefix p) (store w b)))"
  using listS3BackupFiles_ok [OF assms, of w] by (simp add: trace_emit)

theorem listing_is_a_single_page_witness:
  "listS3BackupFiles two_per_page_env ''kmf-db'' ''1700000000'' ''ap-south-1'' bucket_world =
     (Inr [''1700000000/admindb_backup_20231114_120000.sql'',
           ''1700000000/agentdb_backup_20231114_120000.sql''],
      emit (ListObjects ''kmf-db'' ''1700000000'') bucket_world) \<and>
   length (filter (has_prefix ''1700000000'') (store bucket_world ''kmf-db'')) = 3"
proof -
  have a: "aws_config_ok two_per_page_env ''ap-south-1''"
    by (simp add: two_per_page_env_def scenario_env_def)
  have l: "list_ok two_per_page_env ''kmf-db'' ''1700000000''"
    by (simp add: two_per_page_env_def scenario_env_def)
  have m: "filter (has_prefix ''1700000000'') (store bucket_world ''kmf-db'') =
             [''1700000000/admindb_backup_20231114_120000.sql'',
              ''1700000000/agentdb_backup_20231114_120000.sql'',
              ''1700000000/userdb_backup_20231114_120000.sql'']"
    by (simp add: bucket_world_def empty_world_def has_prefix_def)
  have p: "page_limit two_per_page_env = 2"
    by (simp add: two_per_page_env_def scenario_env_def)
  from listing_is_a_single_page [OF a l, of bucket_world]
  obtain keys w1 where 1: "listS3BackupFiles two_per_page_env ''kmf-db'' ''1700000000'' ''ap-south-1''
        bucket_world = (Inr keys, w1)"
      "keys = take (page_limit two_per_page_env)
                (filter (has_prefix ''1700000000'') (store bucket_world ''kmf-db''))"
    by blast
  have w1: "w1 = emit (ListObjects ''kmf-db'' ''1700000000'') bucket_world"
    using listS3BackupFiles_world [OF 1(1)] by simp
  from 1 w1 show ?thesis unfolding m p by simp
qed

subsection \<open>C7: cleanup at the end of the run\<close>

text \<open>
  C7. End-of-run deferred cleanup, in both programs. The trace of a run is the events of
  the loop, none of which is a removal, followed by the removal of exactly the local files
  whose dump (backup) or download (restore) succeeded, the latest first; after the run none
  of these files exists. The restore run ends in a panic exactly when a downloaded file has
  a basename shorter than 27 bytes; the cleanup is the same on both ways out, where the keys
  reached are all of them, or those up to the one that panics.
\<close>

theorem cleanup_is_deferred_to_the_end_of_the_run:
  "(getDatabaseList e (dbHost cfg) (dbPort cfg) (dbUser cfg) (dbPassword cfg) = Inr dbs \<longrightarrow>
      (\<exists>evs. trace (snd (backupAllDatabasesToS3 e cfg w)) =
               trace w @ evs @
               map Remove (rev (map (backupFilePath_of e) (filter (dump_succeeds e cfg) dbs))) \<and>
             removals evs = [] \<and> announcements evs = dbs) \<and>
      (\<forall>db\<in>set dbs. dump_succeeds e cfg db \<longrightarrow>
         backupFilePath_of e db \<notin> files (snd (backupAllDatabasesToS3 e cfg w)))) \<and>
   (listS3BackupFiles e' (s3Bucket cfg') (s3KeyPrefix cfg') (region cfg') w' = (Inr keys, w1) \<longrightarrow>
      fst (restoreAllDatabasesFromS3 e' cfg' w') =
        (if \<exists>k\<in>set keys. short_name e' cfg' w' k then Panicked SliceBoundsOutOfRange
         else Returned None) \<and>
      (\<exists>evs. trace (snd (restoreAllDatabasesFromS3 e' cfg' w')) =
               trace w1 @ evs @
               map Remove (rev (map (local_path_of e')
                 (filter (download_succeeds e' cfg' w') (reached (short_name e' cfg' w') keys)))) \<and>
             removals evs = [] \<and> processings evs = reached (short_name e' cfg' w') keys) \<and>
      (\<forall>k\<in>set (reached (short_name e' cfg' w') keys). download_succeeds e' cfg' w' k \<longrightarrow>
         local_path_of e' k \<notin> files (snd (restoreAllDatabasesFromS3 e' cfg' w'))))"
proof (intro conjI impI)
  assume list: "getDatabaseList e (dbHost cfg) (dbPort cfg) (dbUser cfg) (dbPassword cfg) = Inr dbs"
  let ?ds = "rev (map (backupFilePath_of e) (filter (dump_succeeds e cfg) dbs))"
  have ds: "snd (backup_loop e cfg dbs (w, [])) = ?ds"
    by (simp add: deferred_backup_loop)
  from trace_backup_loop [of e cfg dbs w "[]"]
  obtain evs where evs: "trace (fst (backup_loop e cfg dbs (w, []))) = trace w @ evs"
      "removals evs = []" "announcements evs = dbs"
    by blast
  have "trace (snd (backupAllDatabasesToS3 e cfg w)) = trace w @ evs @ map Remove ?ds"
    by (simp add: backupAll_Inr [OF list] trace_run_deferred evs(1) ds)
  with evs(2,3)
  show "\<exists>evs. trace (snd (backupAllDatabasesToS3 e cfg w)) = trace w @ evs @ map Remove ?ds \<and>
              removals evs = [] \<and> announcements evs = dbs"
    by blast
  show "\<forall>db\<in>set dbs. dump_succeeds e cfg db \<longrightarrow>
          backupFilePath_of e db \<notin> files (snd (backupAllDatabasesToS3 e cfg w))"
    by (simp add: backupAll_Inr [OF list] files_run_deferred ds)
next
  assume list: "listS3BackupFiles e' (s3Bucket cfg') (s3KeyPrefix cfg') (region cfg') w' = (Inr keys, w1)"
  have st: "store w1 = store w'"
    using listS3BackupFiles_world [OF list] by (simp add: store_emit)
  note cong = short_name_cong [OF st] download_succeeds_cong [OF st]
  let ?reached = "reached (short_name e' cfg' w') keys"
  let ?ds = "rev (map (local_path_of e') (filter (download_succeeds e' cfg' w') ?reached))"
  have ds: "snd (snd (restore_loop e' cfg' keys (w1, []))) = ?ds"
    by (simp add: deferred_restore_loop cong)
  show "fst (restoreAllDatabasesFromS3 e' cfg' w') =
          (if \<exists>k\<in>set keys. short_name e' cfg' w' k then Panicked SliceBoundsOutOfRange
           else Returned None)"
    by (simp add: restoreAll_Inr [OF list] panic_restore_loop cong)
  from trace_restore_loop [of e' cfg' keys w1 "[]"]
  obtain evs where evs: "trace (fst (snd (restore_loop e' cfg' keys (w1, [])))) = trace w1 @ evs"
      "removals evs = []" "processings evs = ?reached"
    by (auto simp: cong)
  have "trace (snd (restoreAllDatabasesFromS3 e' cfg' w')) = trace w1 @ evs @ map Remove ?ds"
    by (simp add: restoreAll_Inr [OF list] trace_run_deferred evs(1) ds)
  with evs(2,3)
  show "\<exists>evs. trace (snd (restoreAllDatabasesFromS3 e' cfg' w')) = trace w1 @ evs @ map Remove ?ds \<and>
              removals evs = [] \<and> processings evs = ?reached"
    by blast
  show "\<forall>k\<in>set ?reached. download_succeeds e' cfg' w' k \<longrightarrow>
          local_path_of e' k \<notin> files (snd (restoreAllDatabasesFromS3 e' cfg' w'))"
    by (simp add: restoreAll_Inr [OF list] files_run_deferred ds)
qed

theorem cleanup_is_deferred_to_the_end_of_the_run_witness:
  "(\<exists>evs. trace (snd (backupAllDatabasesToS3 scenario_env (backup_config scenario_env) empty_world)) =
            trace empty_world @ evs @
            [Remove ''/tmp/userdb_backup_20231114_120000.sql'',
             Remove ''/tmp/admindb_backup_20231114_120000.sql''] \<and>
          removals evs = [] \<and> announcements evs = [''admindb'', ''agentdb'', ''userdb'']) \<and>
   ''/tmp/admindb_backup_20231114_120000.sql'' \<notin>
     files (snd (backupAllDatabasesToS3 scenario_env (backup_config scenario_env) empty_world)) \<and>
   (\<exists>evs. trace (snd (restoreAllDatabasesFromS3 scenario_env (restore_config scenario_env) bucket_world)) =
            trace (emit (ListObjects ''kmf-db'' ''1700000000'') bucket_world) @ evs @
            [Remove ''/tmp/agentdb_backup_20231114_120000.sql'',
             Remove ''/tmp/admindb_backup_20231114_120000.sql''] \<and>
          removals evs = []) \<and>
   ''/tmp/agentdb_backup_20231114_120000.sql'' \<notin>
     files (snd (restoreAllDatabasesFromS3 scenario_env (restore_config scenario_env) bucket_world)) \<and>
   fst (restoreAllDatabasesFromS3 unset_prefix_env (restore_config unset_prefix_env) notes_world) =
     Panicked SliceBoundsOutOfRange \<and>
   ''/tmp/notes.txt'' \<notin>
     files (snd (restoreAllDatabasesFromS3 unset_prefix_env (restore_config unset_prefix_env) notes_world))"
proof -
  let ?bc = "backup_config scenario_env" and ?rc = "restore_config scenario_env"
  let ?dbs = "[''admindb'', ''agentdb'', ''userdb'']"
  let ?keys = "[''1700000000/admindb_backup_20231114_120000.sql'',
                ''1700000000/agentdb_backup_20231114_120000.sql'',
                ''1700000000/userdb_backup_20231114_120000.sql'']"
  have ok: "filter (dump_succeeds scenario_env ?bc) ?dbs = [''admindb'', ''userdb'']"
    by (simp add: dump_succeeds_def scenario_dumps)
  have r: "reached (short_name scenario_env ?rc bucket_world) ?keys = ?keys"
    using scenario_no_short_name by (rule reached_all)
  have dl: "filter (download_succeeds scenario_env ?rc bucket_world) ?keys =
              [''1700000000/admindb_backup_20231114_120000.sql'',
               ''1700000000/agentdb_backup_20231114_120000.sql'']"
    by (simp add: scenario_downloads)
  note inst = cleanup_is_deferred_to_the_end_of_the_run [of scenario_env ?bc ?dbs empty_world
      scenario_env ?rc bucket_world ?keys "emit (ListObjects ''kmf-db'' ''1700000000'') bucket_world"]
  from inst scenario_getDatabaseList
  have b: "(\<exists>evs. trace (snd (backupAllDatabasesToS3 scenario_env ?bc empty_world)) =
                   trace empty_world @ evs @
                   map Remove (rev (map (backupFilePath_of scenario_env)
                     (filter (dump_succeeds scenario_env ?bc) ?dbs))) \<and>
                 removals evs = [] \<and> announcements evs = ?dbs) \<and>
           (\<forall>db\<in>set ?dbs. dump_succeeds scenario_env ?bc db \<longrightarrow>
              backupFilePath_of scenario_env db \<notin>
                files (snd (backupAllDatabasesToS3 scenario_env ?bc empty_world)))"
    by blast
  from inst scenario_listS3BackupFiles
  have s: "(\<exists>evs. trace (snd (restoreAllDatabasesFromS3 scenario_env ?rc bucket_world)) =
                   trace (emit (ListObjects ''kmf-db'' ''1700000000'') bucket_world) @ evs @
                   map Remove (rev (map (local_path_of scenario_env)
                     (filter (download_succeeds scenario_env ?rc bucket_world)
                       (reached (short_name scenario_env ?rc bucket_world) ?keys)))) \<and>
                 removals evs = [] \<and>
                 processings evs = reached (short_name scenario_env ?rc bucket_world) ?keys) \<and>
           (\<forall>k\<in>set (reached (short_name scenario_env ?rc bucket_world) ?keys).
              download_succeeds scenario_env ?rc bucket_world k \<longrightarrow>
              local_path_of scenario_env k \<notin>
                files (snd (restoreAllDatabasesFromS3 scenario_env ?rc bucket_world)))"
    by blast
  from b have b1: "\<exists>evs. trace (snd (backupAllDatabasesToS3 scenario_env ?bc empty_world)) =
            trace empty_world @ evs @
            [Remove ''/tmp/userdb_backup_20231114_120000.sql'',
             Remove ''/tmp/admindb_backup_20231114_120000.sql''] \<and>
          removals evs = [] \<and> announcements evs = ?dbs"
    unfolding ok by (simp add: scenario_paths)
  from b have b2: "''/tmp/admindb_backup_20231114_120000.sql'' \<notin>
     files (snd (backupAllDatabasesToS3 scenario_env ?bc empty_world))"
    using scenario_paths(1) scenario_dumps(1) [of ?bc] by (simp add: dump_succeeds_def)
  from s have s1: "\<exists>evs. trace (snd (restoreAllDatabasesFromS3 scenario_env ?rc bucket_world)) =
            trace (emit (ListObjects ''kmf-db'' ''1700000000'') bucket_world) @ evs @
            [Remove ''/tmp/agentdb_backup_20231114_120000.sql'',
             Remove ''/tmp/admindb_backup_20231114_120000.sql''] \<and>
          removals evs = []"
    unfolding r dl by (auto simp: scenario_local_paths)
  from s have s2: "''/tmp/agentdb_backup_20231114_120000.sql'' \<notin>
     files (snd (restoreAllDatabasesFromS3 scenario_env ?rc bucket_world))"
    unfolding r using scenario_local_paths(2) scenario_downloads(2) by simp
  let ?uc = "restore_config unset_prefix_env"
  note panic = cleanup_is_deferred_to_the_end_of_the_run [of scenario_env ?bc ?dbs empty_world
      unset_prefix_env ?uc notes_world "[''notes.txt'']" "emit (ListObjects ''kmf-db'' []) notes_world"]
  have nr: "reached (short_name unset_prefix_env ?uc notes_world) [''notes.txt''] = [''notes.txt'']"
    by simp
  from panic notes_list notes_short
  have p1: "fst (restoreAllDatabasesFromS3 unset_prefix_env ?uc notes_world) =
              Panicked SliceBoundsOutOfRange"
    by simp
  from panic notes_list
  have "\<forall>k\<in>set (reached (short_name unset_prefix_env ?uc notes_world) [''notes.txt'']).
          download_succeeds unset_prefix_env ?uc notes_world k \<longrightarrow>
          local_path_of unset_prefix_env k \<notin>
            files (snd (restoreAllDatabasesFromS3 unset_prefix_env ?uc notes_world))"
    by blast
  then have p2: "''/tmp/notes.txt'' \<notin>
      files (snd (restoreAllDatabasesFromS3 unset_prefix_env ?uc notes_world))"
    unfolding nr using notes_short notes_path by (simp add: short_name_def)
  from b1 b2 s1 s2 p1 p2 show ?thesis by blast
qed

subsection \<open>C8: the clean flag of the restore tool\<close>

text \<open>
  C8. What the program contributes to the idempotence of a restore is the command line:
  \<open>restoreDatabase\<close> always runs the restore tool with \<open>-c\<close>, and two restores of the same
  artifact into the same database run the same command line. The state of the database
  after the tool has run is decided by the tool and the server, which are not part of the
  program.
\<close>

lemma restore_command_line_has_the_clean_flag:
  "''-c'' \<in> set (pg_restore_argv host port user dbName backupFilePath)"
  by (simp add: pg_restore_argv_def)

lemma restoreDatabase_runs_the_command_line:
  "trace (snd (restoreDatabase e dbName user password host port backupFilePath w)) =
     trace w @ Exec (pg_restore_argv host port user dbName backupFilePath) #
       (if run_pg_restore e (pg_restore_argv host port user dbName backupFilePath)
        then [Stdout_Restored dbName backupFilePath] else [])"
  by (simp add: restoreDatabase_def emit_def Let_def)

subsection \<open>C9: the file of a failed dump\<close>

text \<open>
  C9. After a backup run whose enumeration returned \<open>dbs\<close>, the removals of the run are
  exactly the paths of the successful dumps, so none is scheduled for a failed dump; the
  files that exist are those that existed before and the partial files of failed dumps,
  without the paths of the successful dumps; and a partial file of a failed dump at a path
  that is not the path of a successful dump is still there.
\<close>

theorem failed_dump_is_not_cleaned_up:
  assumes "getDatabaseList e (dbHost cfg) (dbPort cfg) (dbUser cfg) (dbPassword cfg) = Inr dbs"
  shows "removals (trace (snd (backupAllDatabasesToS3 e cfg w))) =
           removals (trace w) @ rev (map (backupFilePath_of e) (filter (dump_succeeds e cfg) dbs)) \<and>
         files (snd (backupAllDatabasesToS3 e cfg w)) =
           (files w \<union> {backupFilePath_of e db | db. db \<in> set dbs \<and> dump_exit_of e cfg db = DumpErr True}) -
           {backupFilePath_of e db | db. db \<in> set dbs \<and> dump_succeeds e cfg db} \<and>
         (\<forall>db\<in>set dbs. dump_exit_of e cfg db = DumpErr True \<and>
            backupFilePath_of e db \<notin> {backupFilePath_of e d | d. d \<in> set dbs \<and> dump_succeeds e cfg d} \<longrightarrow>
            backupFilePath_of e db \<in> files (snd (backupAllDatabasesToS3 e cfg w)))"
proof -
  let ?ok = "{backupFilePath_of e db | db. db \<in> set dbs \<and> dump_succeeds e cfg db}"
  let ?partial = "{backupFilePath_of e db | db. db \<in> set dbs \<and> dump_exit_of e cfg db = DumpErr True}"
  let ?ds = "rev (map (backupFilePath_of e) (filter (dump_succeeds e cfg) dbs))"
  have ds: "snd (backup_loop e cfg dbs (w, [])) = ?ds"
    by (simp add: deferred_backup_loop)
  have set_ds: "set ?ds = ?ok" by auto
  from trace_backup_loop [of e cfg dbs w "[]"]
  obtain evs where evs: "trace (fst (backup_loop e cfg dbs (w, []))) = trace w @ evs"
      "removals evs = []"
    by blast
  have 1: "removals (trace (snd (backupAllDatabasesToS3 e cfg w))) = removals (trace w) @ ?ds"
    by (simp add: backupAll_Inr [OF assms] trace_run_deferred evs ds removals_append
        removals_map_Remove)
  have parts: "{backupFilePath_of e db | db. db \<in> set dbs \<and> dump_exit_of e cfg db \<noteq> DumpErr False} =
               ?partial \<union> ?ok"
  proof -
    have "\<And>x. x \<noteq> DumpErr False \<longleftrightarrow> x = DumpErr True \<or> x = DumpOk"
      by (case_tac x) auto
    then show ?thesis by (auto simp: dump_succeeds_def)
  qed
  have "files (snd (backupAllDatabasesToS3 e cfg w)) = (files w \<union> (?partial \<union> ?ok)) - ?ok"
    by (simp add: backupAll_Inr [OF assms] files_run_deferred files_backup_loop ds set_ds parts
        del: set_rev set_map set_filter)
  then have 2: "files (snd (backupAllDatabasesToS3 e cfg w)) = (files w \<union> ?partial) - ?ok"
    by blast
  from 2 have 3: "\<forall>db\<in>set dbs. dump_exit_of e cfg db = DumpErr True \<and> backupFilePath_of e db \<notin> ?ok \<longrightarrow>
                    backupFilePath_of e db \<in> files (snd (backupAllDatabasesToS3 e cfg w))"
    by blast
  from 1 2 3 show ?thesis by blast
qed

theorem failed_dump_is_not_cleaned_up_witness:
  "removals (trace (snd (backupAllDatabasesToS3 scenario_env (backup_config scenario_env) empty_world))) =
     [''/tmp/userdb_backup_20231114_120000.sql'', ''/tmp/admindb_backup_20231114_120000.sql''] \<and>
   ''/tmp/agentdb_backup_20231114_120000.sql'' \<in>
     files (snd (backupAllDatabasesToS3 scenario_env (backup_config scenario_env) empty_world))"
proof -
  let ?bc = "backup_config scenario_env"
  let ?dbs = "[''admindb'', ''agentdb'', ''userdb'']"
  have ok: "filter (dump_succeeds scenario_env ?bc) ?dbs = [''admindb'', ''userdb'']"
    by (simp add: dump_succeeds_def scenario_dumps)
  have out: "backupFilePath_of scenario_env ''agentdb'' \<notin>
               {backupFilePath_of scenario_env d | d. d \<in> set ?dbs \<and> dump_succeeds scenario_env ?bc d}"
    by (auto simp: dump_succeeds_def scenario_dumps scenario_paths)
  note inst = failed_dump_is_not_cleaned_up [OF scenario_getDatabaseList, of empty_world]
  from inst have "removals (trace (snd (backupAllDatabasesToS3 scenario_env ?bc empty_world))) =
      removals (trace empty_world) @
      rev (map (backupFilePath_of scenario_env) (filter (dump_succeeds scenario_env ?bc) ?dbs))"
    by blast
  then have 1: "removals (trace (snd (backupAllDatabasesToS3 scenario_env ?bc empty_world))) =
     [''/tmp/userdb_backup_20231114_120000.sql'', ''/tmp/admindb_backup_20231114_120000.sql'']"
    unfolding ok by (simp add: scenario_paths removals_def empty_world_def)
  from inst have every: "\<forall>db\<in>set ?dbs. dump_exit_of scenario_env ?bc db = DumpErr True \<and>
      backupFilePath_of scenario_env db \<notin>
        {backupFilePath_of scenario_env d | d. d \<in> set ?dbs \<and> dump_succeeds scenario_env ?bc d} \<longrightarrow>
      backupFilePath_of scenario_env db \<in>
        files (snd (backupAllDatabasesToS3 scenario_env ?bc empty_world))"
    by blast
  have mem: "''agentdb'' \<in> set ?dbs" by simp
  from bspec [OF every mem] out scenario_dumps(2) [of ?bc]
  have "backupFilePath_of scenario_env ''agentdb'' \<in>
          files (snd (backupAllDatabasesToS3 scenario_env ?bc empty_world))"
    by blast
  then have 2: "''/tmp/agentdb_backup_20231114_120000.sql'' \<in>
     files (snd (backupAllDatabasesToS3 scenario_env ?bc empty_world))"
    by (simp add: scenario_paths)
  from 1 2 show ?thesis by blast
qed

subsection \<open>C10: a restore run without a prefix\<close>




end
